theory Spec2Isabelle
  imports Complex_Main "HOL-Library.Multiset" "HOL-Library.Char_ord" "HOL-Library.List_Lexorder"
begin

section \<open>Entity records as the importer receives them\<close>

text \<open>
  The records handed to \<open>store_entity\<close> are Python dictionaries read from JSON. A key
  that may be missing is an option: \<open>None\<close> is the absent key. Strings are character
  lists; the values under the keys are taken to have the types of the exchange format
  (strings, lists of dictionaries).
\<close>

record alias_data =
  alias_value :: "string option"
  alias_language :: "string option"

record property_data =
  property_id :: "string option"
  property_label :: "string option"

record statement_data =
  stmt_property :: "property_data option"
  stmt_value :: "string option"
  stmt_entity_id :: "string option"

record entity_data =
  entity_id :: "string option"
  label :: "string option"
  description :: "string option"
  entity_type :: "string option"
  aliases :: "alias_data list option"
  statements :: "statement_data list option"

text \<open>\<open>d.get(k, default)\<close> on such a key.\<close>

definition get_or :: "'a \<Rightarrow> 'a option \<Rightarrow> 'a" where
  "get_or dflt v = (case v of None \<Rightarrow> dflt | Some x \<Rightarrow> x)"

text \<open>\<open>'k' in d and d['k']\<close> for a list-valued key: the key is there and its list is
  not empty. The result is the list to loop over, or \<open>None\<close> when the guard is false.\<close>

definition present_nonempty :: "'a list option \<Rightarrow> 'a list option" where
  "present_nonempty v = (case v of None \<Rightarrow> None | Some xs \<Rightarrow> if xs = [] then None else Some xs)"

datatype exn =
    KeyError string
  | OperationalError
  | OverflowError
  | ZeroDivisionError
  | BackendError string

text \<open>\<open>entity_data['entity_id']\<close>: raises \<open>KeyError\<close> when the key is absent.\<close>

definition getitem_entity_id :: "entity_data \<Rightarrow> exn + string" where
  "getitem_entity_id r = (case entity_id r of None \<Rightarrow> Inl (KeyError ''entity_id'') | Some v \<Rightarrow> Inr v)"

text \<open>What the two backends print, one constructor per \<open>print\<close> call of the storage classes.\<close>

datatype message =
    Store_failed string exn
  | Get_failed string exn
  | Search_failed exn
  | Missing_entity_id

section \<open>The relational backend: tables\<close>

record entity_row =
  row_id :: string
  row_label :: string
  row_description :: string
  row_type :: string

record alias_row =
  alias_rowid :: nat
  alias_entity_id :: string
  alias_row_value :: string
  alias_row_language :: string

record property_row =
  prop_id :: string
  prop_label :: string

record statement_row =
  stmt_rowid :: nat
  stmt_row_entity_id :: string
  stmt_row_property_id :: string
  stmt_row_value :: string
  stmt_row_entity_value_id :: "string option"

text \<open>
  The database file after \<open>create_tables\<close>: four tables in row order, and the two
  AUTOINCREMENT counters that SQLite keeps in \<open>sqlite_sequence\<close>. Foreign keys are
  declared but not enforced (the connection never turns them on).

  A file on which \<open>create_tables\<close> has never run has no tables and is not a value of
  this type: there every statement of the other methods raises (no such table), which their
  \<open>except\<close> blocks catch. Only \<open>store_entities\<close> calls \<open>create_tables\<close>;
  \<open>store_entity\<close>, \<open>get_entity_by_id\<close> and \<open>search_entities\<close> do not. What
  is proved below about stored data is therefore about stores whose tables exist, and the
  scenarios that store and read back start with \<open>create_tables\<close>.
\<close>

record database =
  entities_tbl :: "entity_row list"
  aliases_tbl :: "alias_row list"
  properties_tbl :: "property_row list"
  statements_tbl :: "statement_row list"
  aliases_seq :: nat
  statements_seq :: nat

definition empty_database :: database where
  "empty_database = \<lparr>entities_tbl = [], aliases_tbl = [], properties_tbl = [],
     statements_tbl = [], aliases_seq = 0, statements_seq = 0\<rparr>"

subsection \<open>The SQL statements of the storage class\<close>

text \<open>\<open>INSERT OR REPLACE INTO entities\<close>: the row with the same primary key is
  deleted, the new row is added.\<close>

definition insert_or_replace_entity :: "entity_row \<Rightarrow> database \<Rightarrow> database" where
  "insert_or_replace_entity e d =
     d\<lparr>entities_tbl := filter (\<lambda>x. row_id x \<noteq> row_id e) (entities_tbl d) @ [e]\<rparr>"

definition delete_aliases :: "string \<Rightarrow> database \<Rightarrow> database" where
  "delete_aliases eid d = d\<lparr>aliases_tbl := filter (\<lambda>a. alias_entity_id a \<noteq> eid) (aliases_tbl d)\<rparr>"

definition insert_alias :: "string \<Rightarrow> string \<Rightarrow> string \<Rightarrow> database \<Rightarrow> database" where
  "insert_alias eid v l d =
     d\<lparr>aliases_tbl := aliases_tbl d @
          [\<lparr>alias_rowid = Suc (aliases_seq d), alias_entity_id = eid,
            alias_row_value = v, alias_row_language = l\<rparr>],
       aliases_seq := Suc (aliases_seq d)\<rparr>"

definition delete_statements :: "string \<Rightarrow> database \<Rightarrow> database" where
  "delete_statements eid d =
     d\<lparr>statements_tbl := filter (\<lambda>s. stmt_row_entity_id s \<noteq> eid) (statements_tbl d)\<rparr>"

definition insert_or_replace_property :: "string \<Rightarrow> string \<Rightarrow> database \<Rightarrow> database" where
  "insert_or_replace_property pid pl d =
     d\<lparr>properties_tbl := filter (\<lambda>p. prop_id p \<noteq> pid) (properties_tbl d) @
          [\<lparr>prop_id = pid, prop_label = pl\<rparr>]\<rparr>"

definition insert_statement ::
  "string \<Rightarrow> string \<Rightarrow> string \<Rightarrow> string option \<Rightarrow> database \<Rightarrow> database" where
  "insert_statement eid pid v ev d =
     d\<lparr>statements_tbl := statements_tbl d @
          [\<lparr>stmt_rowid = Suc (statements_seq d), stmt_row_entity_id = eid,
            stmt_row_property_id = pid, stmt_row_value = v, stmt_row_entity_value_id = ev\<rparr>],
       statements_seq := Suc (statements_seq d)\<rparr>"

text \<open>\<open>SELECT id, label, description, type FROM entities WHERE id = ?\<close> and
  \<open>fetchone\<close>.\<close>

definition select_entity :: "string \<Rightarrow> database \<Rightarrow> entity_row option" where
  "select_entity eid d = find (\<lambda>e. row_id e = eid) (entities_tbl d)"

definition select_aliases :: "string \<Rightarrow> database \<Rightarrow> (string \<times> string) list" where
  "select_aliases eid d =
     map (\<lambda>a. (alias_row_value a, alias_row_language a))
       (filter (\<lambda>a. alias_entity_id a = eid) (aliases_tbl d))"

text \<open>\<open>SELECT s.id, p.id, p.label, s.value, s.entity_value_id FROM statements s JOIN
  properties p ON s.property_id = p.id WHERE s.entity_id = ?\<close>.\<close>

definition select_statements ::
  "string \<Rightarrow> database \<Rightarrow> (nat \<times> string \<times> string \<times> string \<times> string option) list" where
  "select_statements eid d =
     concat (map (\<lambda>s. map (\<lambda>p. (stmt_rowid s, prop_id p, prop_label p, stmt_row_value s,
                                  stmt_row_entity_value_id s))
                         (filter (\<lambda>p. stmt_row_property_id s = prop_id p) (properties_tbl d)))
               (filter (\<lambda>s. stmt_row_entity_id s = eid) (statements_tbl d)))"

subsection \<open>The LIKE operator\<close>

text \<open>SQLite's \<open>LIKE\<close> without an ESCAPE clause: \<open>%\<close> stands for any run of
  characters, \<open>_\<close> for any one character, and letters of ASCII compare without case.\<close>

definition ascii_lower :: "char \<Rightarrow> char" where
  "ascii_lower c =
     (case map_of (zip ''ABCDEFGHIJKLMNOPQRSTUVWXYZ'' ''abcdefghijklmnopqrstuvwxyz'') c of
        None \<Rightarrow> c
      | Some l \<Rightarrow> l)"

fun like :: "string \<Rightarrow> string \<Rightarrow> bool" where
  "like [] s = (s = [])"
| "like (p # ps) [] = (p = CHR ''%'' \<and> like ps [])"
| "like (p # ps) (c # cs) =
     (if p = CHR ''%'' then like ps (c # cs) \<or> like (p # ps) cs
      else (p = CHR ''_'' \<or> ascii_lower p = ascii_lower c) \<and> like ps cs)"

text \<open>The parameter \<open>f"%{query}%"\<close>.\<close>

definition like_pattern :: "string \<Rightarrow> string" where
  "like_pattern q = CHR ''%'' # q @ [CHR ''%'']"

record 'a hit =
  hit_id :: 'a
  hit_label :: 'a
  hit_description :: 'a

text \<open>The search statement has no ORDER BY. The engine walks the table \<open>entities\<close>
  through the index of its primary key, so its rows come in the order of their ids, compared
  byte by byte, and not in the order in which they were inserted.\<close>

definition index_order :: "entity_row list \<Rightarrow> entity_row list" where
  "index_order es = sort_key row_id es"

text \<open>\<open>entities e LEFT JOIN aliases a ON e.id = a.entity_id\<close>: every entity row, in the
  order of the index, with each of its alias rows, or once with no alias when it has
  none.\<close>

definition left_join_aliases :: "database \<Rightarrow> (entity_row \<times> alias_row option) list" where
  "left_join_aliases d =
     concat (map (\<lambda>e. case filter (\<lambda>a. row_id e = alias_entity_id a) (aliases_tbl d) of
                         [] \<Rightarrow> [(e, None)]
                       | ms \<Rightarrow> map (\<lambda>a. (e, Some a)) ms)
               (index_order (entities_tbl d)))"

definition search_where :: "string \<Rightarrow> entity_row \<times> alias_row option \<Rightarrow> bool" where
  "search_where pat ea =
     (like pat (row_label (fst ea)) \<or> like pat (row_description (fst ea)) \<or>
      (case snd ea of None \<Rightarrow> False | Some a \<Rightarrow> like pat (alias_row_value a)))"

text \<open>\<open>SELECT DISTINCT\<close>: a row equal to an earlier one is dropped.\<close>

fun distinct_rows :: "'a list \<Rightarrow> 'a list" where
  "distinct_rows [] = []"
| "distinct_rows (x # xs) = x # distinct_rows (filter (\<lambda>y. y \<noteq> x) xs)"

text \<open>\<open>LIMIT ?\<close> with the limit the statement was given, a 64-bit integer (see
  \<open>bind_integer\<close> below): a negative limit is no limit.\<close>

definition sql_limit :: "int \<Rightarrow> 'a list \<Rightarrow> 'a list" where
  "sql_limit n xs = (if n < 0 then xs else take (nat n) xs)"

definition select_search :: "string \<Rightarrow> int \<Rightarrow> database \<Rightarrow> string hit list" where
  "select_search q n d =
     sql_limit n (distinct_rows
       (map (\<lambda>ea. \<lparr>hit_id = row_id (fst ea), hit_label = row_label (fst ea),
                   hit_description = row_description (fst ea)\<rparr>)
          (filter (search_where (like_pattern q)) (left_join_aliases d))))"

section \<open>The relational backend: connections and transactions\<close>

text \<open>
  Every method of \<open>WikidataSQLiteStorage\<close> opens its own connection, works on it and
  closes it. The state is the committed content of the database file, the content as the
  open connection sees it (its transaction), a clock counting the calls into the engine,
  the number of open connections and what has been printed.

  The engine can fail: the oracle \<open>fails\<close> says for each call into the engine
  (\<open>connect\<close>, \<open>execute\<close>, \<open>commit\<close>), by its clock value, whether it raises.
  A statement that raises changes nothing. \<open>rollback\<close> and \<open>close\<close> are taken
  not to raise.
\<close>

record sqlite =
  db_file :: database
  txn :: database
  clock :: nat
  open_connections :: nat
  printed :: "message list"

definition new_sqlite :: sqlite where
  "new_sqlite = \<lparr>db_file = empty_database, txn = empty_database, clock = 0,
     open_connections = 0, printed = []\<rparr>"

definition no_faults :: "nat \<Rightarrow> bool" where
  "no_faults k = False"

text \<open>The oracle under which exactly the call at clock value \<open>n\<close> fails.\<close>

definition fails_at :: "nat \<Rightarrow> nat \<Rightarrow> bool" where
  "fails_at n k = (k = n)"

definition get_db_connection :: "(nat \<Rightarrow> bool) \<Rightarrow> sqlite \<Rightarrow> (exn + unit) \<times> sqlite" where
  "get_db_connection fails s =
     (if fails (clock s) then (Inl OperationalError, s\<lparr>clock := Suc (clock s)\<rparr>)
      else (Inr (), s\<lparr>clock := Suc (clock s), txn := db_file s,
                       open_connections := Suc (open_connections s)\<rparr>))"

definition execute :: "(nat \<Rightarrow> bool) \<Rightarrow> (database \<Rightarrow> database) \<Rightarrow> sqlite \<Rightarrow> (exn + unit) \<times> sqlite" where
  "execute fails f s =
     (if fails (clock s) then (Inl OperationalError, s\<lparr>clock := Suc (clock s)\<rparr>)
      else (Inr (), s\<lparr>clock := Suc (clock s), txn := f (txn s)\<rparr>))"

text \<open>\<open>execute\<close> of a SELECT followed by \<open>fetchone\<close> or \<open>fetchall\<close>.\<close>

definition fetch :: "(nat \<Rightarrow> bool) \<Rightarrow> (database \<Rightarrow> 'a) \<Rightarrow> sqlite \<Rightarrow> (exn + 'a) \<times> sqlite" where
  "fetch fails q s =
     (if fails (clock s) then (Inl OperationalError, s\<lparr>clock := Suc (clock s)\<rparr>)
      else (Inr (q (txn s)), s\<lparr>clock := Suc (clock s)\<rparr>))"

definition commit :: "(nat \<Rightarrow> bool) \<Rightarrow> sqlite \<Rightarrow> (exn + unit) \<times> sqlite" where
  "commit fails s =
     (if fails (clock s) then (Inl OperationalError, s\<lparr>clock := Suc (clock s)\<rparr>)
      else (Inr (), s\<lparr>clock := Suc (clock s), db_file := txn s\<rparr>))"

definition rollback :: "sqlite \<Rightarrow> sqlite" where
  "rollback s = s\<lparr>txn := db_file s\<rparr>"

definition close :: "sqlite \<Rightarrow> sqlite" where
  "close s = s\<lparr>open_connections := open_connections s - 1\<rparr>"

definition print :: "message \<Rightarrow> sqlite \<Rightarrow> sqlite" where
  "print m s = s\<lparr>printed := printed s @ [m]\<rparr>"

text \<open>Sequencing: the first exception ends the block.\<close>

definition and_then ::
  "(sqlite \<Rightarrow> (exn + 'a) \<times> sqlite) \<Rightarrow> ('a \<Rightarrow> sqlite \<Rightarrow> (exn + 'b) \<times> sqlite) \<Rightarrow>
   sqlite \<Rightarrow> (exn + 'b) \<times> sqlite" where
  "and_then m f s = (case m s of (Inl e, s') \<Rightarrow> (Inl e, s') | (Inr x, s') \<Rightarrow> f x s')"

definition done_with :: "'a \<Rightarrow> sqlite \<Rightarrow> (exn + 'a) \<times> sqlite" where
  "done_with x s = (Inr x, s)"

definition eval_pure :: "exn + 'a \<Rightarrow> sqlite \<Rightarrow> (exn + 'a) \<times> sqlite" where
  "eval_pure v s = (v, s)"

subsection \<open>create_tables\<close>

text \<open>Four \<open>CREATE TABLE IF NOT EXISTS\<close> and a commit, outside any \<open>try\<close>: an
  exception leaves the method at once, the connection still open. On a file that has the
  tables the four statements change nothing; on a new file they leave the four tables
  empty, which is \<open>empty_database\<close>.\<close>

definition create_tables :: "(nat \<Rightarrow> bool) \<Rightarrow> sqlite \<Rightarrow> (exn + unit) \<times> sqlite" where
  "create_tables fails =
     and_then (get_db_connection fails) (\<lambda>_.
     and_then (execute fails (\<lambda>d. d)) (\<lambda>_.
     and_then (execute fails (\<lambda>d. d)) (\<lambda>_.
     and_then (execute fails (\<lambda>d. d)) (\<lambda>_.
     and_then (execute fails (\<lambda>d. d)) (\<lambda>_.
     and_then (commit fails) (\<lambda>_ s. (Inr (), close s)))))))"

subsection \<open>store_entity\<close>

text \<open>The loop over the aliases. The parameter tuple is built before \<open>execute\<close> is
  called, so a missing \<open>entity_id\<close> raises before the engine is reached.\<close>

fun insert_aliases ::
  "(nat \<Rightarrow> bool) \<Rightarrow> entity_data \<Rightarrow> alias_data list \<Rightarrow> sqlite \<Rightarrow> (exn + unit) \<times> sqlite" where
  "insert_aliases fails r [] s = (Inr (), s)"
| "insert_aliases fails r (a # as) s =
     (case getitem_entity_id r of
        Inl e \<Rightarrow> (Inl e, s)
      | Inr eid \<Rightarrow>
          (case execute fails (insert_alias eid (get_or [] (alias_value a))
                                 (get_or [] (alias_language a))) s of
             (Inl e, s') \<Rightarrow> (Inl e, s')
           | (Inr _, s') \<Rightarrow> insert_aliases fails r as s'))"

text \<open>The loop over the statements: a statement without the key \<open>property\<close> is passed
  over; for the others the property row is written first, then the statement row.\<close>

fun insert_statements ::
  "(nat \<Rightarrow> bool) \<Rightarrow> entity_data \<Rightarrow> statement_data list \<Rightarrow> sqlite \<Rightarrow> (exn + unit) \<times> sqlite" where
  "insert_statements fails r [] s = (Inr (), s)"
| "insert_statements fails r (st # sts) s =
     (case stmt_property st of
        None \<Rightarrow> insert_statements fails r sts s
      | Some p \<Rightarrow>
          (case execute fails (insert_or_replace_property (get_or [] (property_id p))
                                 (get_or [] (property_label p))) s of
             (Inl e, s') \<Rightarrow> (Inl e, s')
           | (Inr _, s') \<Rightarrow>
               (case getitem_entity_id r of
                  Inl e \<Rightarrow> (Inl e, s')
                | Inr eid \<Rightarrow>
                    (case execute fails (insert_statement eid (get_or [] (property_id p))
                                           (get_or [] (stmt_value st)) (stmt_entity_id st)) s' of
                       (Inl e, s'') \<Rightarrow> (Inl e, s'')
                     | (Inr _, s'') \<Rightarrow> insert_statements fails r sts s''))))"

text \<open>The body of the \<open>try\<close> block, up to and including \<open>conn.commit()\<close>.\<close>

definition store_entity_try :: "(nat \<Rightarrow> bool) \<Rightarrow> entity_data \<Rightarrow> sqlite \<Rightarrow> (exn + unit) \<times> sqlite" where
  "store_entity_try fails r =
     and_then (execute fails (insert_or_replace_entity
                 \<lparr>row_id = get_or [] (entity_id r), row_label = get_or [] (label r),
                  row_description = get_or [] (description r),
                  row_type = get_or [] (entity_type r)\<rparr>)) (\<lambda>_.
     and_then (case present_nonempty (aliases r) of
                 None \<Rightarrow> done_with ()
               | Some as \<Rightarrow>
                   and_then (eval_pure (getitem_entity_id r)) (\<lambda>eid.
                   and_then (execute fails (delete_aliases eid)) (\<lambda>_.
                   insert_aliases fails r as))) (\<lambda>_.
     and_then (case present_nonempty (statements r) of
                 None \<Rightarrow> done_with ()
               | Some sts \<Rightarrow>
                   and_then (eval_pure (getitem_entity_id r)) (\<lambda>eid.
                   and_then (execute fails (delete_statements eid)) (\<lambda>_.
                   insert_statements fails r sts))) (\<lambda>_.
     commit fails)))"

text \<open>The whole method: the connection is opened outside the \<open>try\<close>; \<open>except\<close>
  prints and rolls back; \<open>finally\<close> closes the connection.\<close>

definition sqlite_store_entity :: "(nat \<Rightarrow> bool) \<Rightarrow> entity_data \<Rightarrow> sqlite \<Rightarrow> (exn + unit) \<times> sqlite" where
  "sqlite_store_entity fails r s =
     (case get_db_connection fails s of
        (Inl e, s1) \<Rightarrow> (Inl e, s1)
      | (Inr _, s1) \<Rightarrow>
          (case store_entity_try fails r s1 of
             (Inr _, s2) \<Rightarrow> (Inr (), close s2)
           | (Inl e, s2) \<Rightarrow>
               (Inr (), close (rollback
                  (print (Store_failed (get_or ''unknown'' (entity_id r)) e) s2)))))"

subsection \<open>store_entities\<close>

text \<open>The batch is a list of records or a dictionary of them; of a dictionary the
  values are taken, in its order.\<close>

datatype batch = Records "entity_data list" | Mapping "(string \<times> entity_data) list"

definition batch_records :: "batch \<Rightarrow> entity_data list" where
  "batch_records b = (case b of Records rs \<Rightarrow> rs | Mapping kvs \<Rightarrow> map snd kvs)"

fun sqlite_store_each :: "(nat \<Rightarrow> bool) \<Rightarrow> entity_data list \<Rightarrow> sqlite \<Rightarrow> (exn + unit) \<times> sqlite" where
  "sqlite_store_each fails [] s = (Inr (), s)"
| "sqlite_store_each fails (r # rs) s =
     (case sqlite_store_entity fails r s of
        (Inl e, s') \<Rightarrow> (Inl e, s')
      | (Inr _, s') \<Rightarrow> sqlite_store_each fails rs s')"

definition sqlite_store_entities :: "(nat \<Rightarrow> bool) \<Rightarrow> batch \<Rightarrow> sqlite \<Rightarrow> (exn + unit) \<times> sqlite" where
  "sqlite_store_entities fails b =
     and_then (create_tables fails) (\<lambda>_. sqlite_store_each fails (batch_records b))"

subsection \<open>get_entity_by_id\<close>

record alias_view =
  view_value :: string
  view_language :: string

text \<open>A statement of the returned entity; \<open>sv_entity_id\<close> is the key \<open>entity_id\<close>,
  set only when the stored reference is neither NULL nor empty.\<close>

record statement_view =
  sv_id :: nat
  sv_property_id :: string
  sv_property_label :: string
  sv_value :: string
  sv_entity_id :: "string option"

record entity_view =
  view_id :: string
  view_label :: string
  view_description :: string
  view_type :: string
  view_aliases :: "alias_view list"
  view_statements :: "statement_view list"

text \<open>\<open>if stmt[4]\<close>: the reference counts when it is neither NULL nor the empty
  string.\<close>

definition truthy :: "string option \<Rightarrow> string option" where
  "truthy ev = (case ev of None \<Rightarrow> None | Some x \<Rightarrow> if x = [] then None else Some x)"

definition statement_of_row :: "nat \<times> string \<times> string \<times> string \<times> string option \<Rightarrow> statement_view" where
  "statement_of_row row =
     (case row of (sid, pid, pl, v, ev) \<Rightarrow>
        \<lparr>sv_id = sid, sv_property_id = pid, sv_property_label = pl, sv_value = v,
         sv_entity_id = truthy ev\<rparr>)"

definition get_entity_try :: "(nat \<Rightarrow> bool) \<Rightarrow> string \<Rightarrow> sqlite \<Rightarrow> (exn + entity_view option) \<times> sqlite" where
  "get_entity_try fails eid =
     and_then (fetch fails (select_entity eid)) (\<lambda>entity_row.
       case entity_row of
         None \<Rightarrow> done_with None
       | Some er \<Rightarrow>
           and_then (fetch fails (select_aliases eid)) (\<lambda>als.
           and_then (fetch fails (select_statements eid)) (\<lambda>sts.
           done_with (Some \<lparr>view_id = row_id er, view_label = row_label er,
              view_description = row_description er, view_type = row_type er,
              view_aliases = map (\<lambda>a. \<lparr>view_value = fst a, view_language = snd a\<rparr>) als,
              view_statements = map statement_of_row sts\<rparr>))))"

definition sqlite_get_entity_by_id ::
  "(nat \<Rightarrow> bool) \<Rightarrow> string \<Rightarrow> sqlite \<Rightarrow> (exn + entity_view option) \<times> sqlite" where
  "sqlite_get_entity_by_id fails eid s =
     (case get_db_connection fails s of
        (Inl e, s1) \<Rightarrow> (Inl e, s1)
      | (Inr _, s1) \<Rightarrow>
          (case get_entity_try fails eid s1 of
             (Inr v, s2) \<Rightarrow> (Inr v, close s2)
           | (Inl e, s2) \<Rightarrow> (Inr None, close (print (Get_failed eid e) s2))))"

subsection \<open>search_entities\<close>

text \<open>The limit is a Python integer, bound to the statement as a 64-bit INTEGER: outside
  that range \<open>execute\<close> raises \<open>OverflowError\<close> before the engine is reached.\<close>

definition bind_integer :: "int \<Rightarrow> exn + int" where
  "bind_integer n = (if - (2 ^ 63) \<le> n \<and> n < 2 ^ 63 then Inr n else Inl OverflowError)"

definition search_entities_try :: "(nat \<Rightarrow> bool) \<Rightarrow> string \<Rightarrow> int \<Rightarrow> sqlite \<Rightarrow> (exn + string hit list) \<times> sqlite" where
  "search_entities_try fails q n =
     and_then (eval_pure (bind_integer n)) (\<lambda>m. fetch fails (select_search q m))"

definition sqlite_search_entities ::
  "(nat \<Rightarrow> bool) \<Rightarrow> string \<Rightarrow> int \<Rightarrow> sqlite \<Rightarrow> (exn + string hit list) \<times> sqlite" where
  "sqlite_search_entities fails q n s =
     (case get_db_connection fails s of
        (Inl e, s1) \<Rightarrow> (Inl e, s1)
      | (Inr _, s1) \<Rightarrow>
          (case search_entities_try fails q n s1 of
             (Inr v, s2) \<Rightarrow> (Inr v, close s2)
           | (Inl e, s2) \<Rightarrow> (Inr [], close (print (Search_failed e) s2))))"

section \<open>The document backend\<close>

text \<open>
  The table \<open>entities\<close> of the TinyDB file is the list of its documents in the order of
  their document ids; a document is the dictionary that was stored.
\<close>

record tinydb =
  entities :: "entity_data list"
  tiny_printed :: "message list"

definition new_tinydb :: tinydb where
  "new_tinydb = \<lparr>entities = [], tiny_printed = []\<rparr>"

text \<open>\<open>doc.update(fields)\<close>: every key of the argument overwrites the document's, the
  other keys of the document stay.\<close>

definition override :: "'a option \<Rightarrow> 'a option \<Rightarrow> 'a option" where
  "override old new = (case new of None \<Rightarrow> old | Some v \<Rightarrow> Some v)"

definition dict_update :: "entity_data \<Rightarrow> entity_data \<Rightarrow> entity_data" where
  "dict_update doc new =
     \<lparr>entity_id = override (entity_id doc) (entity_id new),
      label = override (label doc) (label new),
      description = override (description doc) (description new),
      entity_type = override (entity_type doc) (entity_type new),
      aliases = override (aliases doc) (aliases new),
      statements = override (statements doc) (statements new)\<rparr>"

text \<open>\<open>Table.get\<close> returns the first document the query accepts, \<open>Table.update\<close>
  updates every document it accepts, \<open>Table.insert\<close> adds a document at the end.\<close>

definition table_get :: "(entity_data \<Rightarrow> bool) \<Rightarrow> entity_data list \<Rightarrow> entity_data option" where
  "table_get cond docs = find cond docs"

definition table_update :: "entity_data \<Rightarrow> (entity_data \<Rightarrow> bool) \<Rightarrow> entity_data list \<Rightarrow> entity_data list" where
  "table_update new cond docs = map (\<lambda>d. if cond d then dict_update d new else d) docs"

definition table_insert :: "entity_data \<Rightarrow> entity_data list \<Rightarrow> entity_data list" where
  "table_insert doc docs = docs @ [doc]"

text \<open>The query \<open>Entity.entity_id == entity_id\<close>: false on a document without the key.\<close>

definition entity_id_is :: "string \<Rightarrow> entity_data \<Rightarrow> bool" where
  "entity_id_is eid d = (entity_id d = Some eid)"

definition tinydb_store_entity :: "entity_data \<Rightarrow> tinydb \<Rightarrow> tinydb" where
  "tinydb_store_entity r t =
     (case entity_id r of
        None \<Rightarrow> t\<lparr>tiny_printed := tiny_printed t @ [Missing_entity_id]\<rparr>
      | Some eid \<Rightarrow>
          if eid = [] then t\<lparr>tiny_printed := tiny_printed t @ [Missing_entity_id]\<rparr>
          else (case table_get (entity_id_is eid) (entities t) of
                  Some existing \<Rightarrow> t\<lparr>entities := table_update r (entity_id_is eid) (entities t)\<rparr>
                | None \<Rightarrow> t\<lparr>entities := table_insert r (entities t)\<rparr>))"

fun tinydb_store_each :: "entity_data list \<Rightarrow> tinydb \<Rightarrow> tinydb" where
  "tinydb_store_each [] t = t"
| "tinydb_store_each (r # rs) t = tinydb_store_each rs (tinydb_store_entity r t)"

definition tinydb_store_entities :: "batch \<Rightarrow> tinydb \<Rightarrow> tinydb" where
  "tinydb_store_entities b t = tinydb_store_each (batch_records b) t"

definition tinydb_get_entity_by_id :: "string \<Rightarrow> tinydb \<Rightarrow> entity_data option" where
  "tinydb_get_entity_by_id eid t = table_get (entity_id_is eid) (entities t)"

text \<open>
  \<open>Entity.label.search(query, flags=re.IGNORECASE)\<close> tests a document with Python's
  \<open>re.search\<close>, which is not part of the repository: it is the parameter \<open>re_search\<close>
  (pattern first, then the text), raising where the pattern does not compile. A document
  without the key fails the test. \<open>|\<close> tries the description only when the label does
  not match.
\<close>

definition field_search :: "(string \<Rightarrow> string \<Rightarrow> exn + bool) \<Rightarrow> string \<Rightarrow> string option \<Rightarrow> exn + bool" where
  "field_search re_search q v = (case v of None \<Rightarrow> Inr False | Some x \<Rightarrow> re_search q x)"

definition search_query :: "(string \<Rightarrow> string \<Rightarrow> exn + bool) \<Rightarrow> string \<Rightarrow> entity_data \<Rightarrow> exn + bool" where
  "search_query re_search q d =
     (case field_search re_search q (label d) of
        Inl e \<Rightarrow> Inl e
      | Inr b \<Rightarrow> if b then Inr True else field_search re_search q (description d))"

fun table_search :: "('d \<Rightarrow> exn + bool) \<Rightarrow> 'd list \<Rightarrow> exn + 'd list" where
  "table_search cond [] = Inr []"
| "table_search cond (d # ds) =
     (case cond d of
        Inl e \<Rightarrow> Inl e
      | Inr b \<Rightarrow>
          (case table_search cond ds of
             Inl e \<Rightarrow> Inl e
           | Inr rs \<Rightarrow> Inr (if b then d # rs else rs)))"

text \<open>The slice \<open>results[:limit]\<close>: a negative limit counts from the end.\<close>

definition slice_to :: "int \<Rightarrow> 'a list \<Rightarrow> 'a list" where
  "slice_to n xs = (if 0 \<le> n then take (nat n) xs else take (nat (int (length xs) + n)) xs)"

definition tinydb_search_entities ::
  "(string \<Rightarrow> string \<Rightarrow> exn + bool) \<Rightarrow> string \<Rightarrow> int \<Rightarrow> tinydb \<Rightarrow> exn + string option hit list" where
  "tinydb_search_entities re_search q n t =
     (case table_search (search_query re_search q) (entities t) of
        Inl e \<Rightarrow> Inl e
      | Inr results \<Rightarrow>
          Inr (map (\<lambda>d. \<lparr>hit_id = entity_id d, hit_label = label d,
                          hit_description = description d\<rparr>) (slice_to n results)))"

section \<open>The benchmark harness\<close>

text \<open>
  \<open>run_performance_comparison\<close> calls \<open>natural_language_query\<close> of the two storage
  objects. That method is not in the repository's files, so a backend is a parameter: for a
  question and the number of the run it gives the exception the call raises, or the call's
  result (a list, or \<open>None\<close>) with the time that passed around it. The times are
  floating-point numbers in the source and reals here; the printing of the table is left
  out, the divisions that can raise are kept.
\<close>

type_synonym 'r backend = "string \<Rightarrow> nat \<Rightarrow> exn + ('r list option \<times> real)"

text \<open>\<open>len(results) if results else 0\<close>.\<close>

definition result_count :: "'r list option \<Rightarrow> nat" where
  "result_count results = (case results of None \<Rightarrow> 0 | Some rs \<Rightarrow> length rs)"

text \<open>The loop \<open>for i in range(iterations)\<close> around one backend.\<close>

fun timed_runs ::
  "(nat \<Rightarrow> exn + ('r list option \<times> real)) \<Rightarrow> nat list \<Rightarrow> real list \<Rightarrow> nat \<Rightarrow> exn + (real list \<times> nat)" where
  "timed_runs call [] run_times first_count = Inr (run_times, first_count)"
| "timed_runs call (i # is) run_times first_count =
     (case call i of
        Inl e \<Rightarrow> Inl e
      | Inr (results, elapsed) \<Rightarrow>
          timed_runs call is (run_times @ [elapsed]) (if i = 0 then result_count results else first_count))"

text \<open>\<open>sum(xs) / len(xs)\<close> and \<open>a / b\<close>.\<close>

definition average :: "real list \<Rightarrow> exn + real" where
  "average xs = (if xs = [] then Inl ZeroDivisionError else Inr (sum_list xs / real (length xs)))"

definition divide_by :: "real \<Rightarrow> real \<Rightarrow> exn + real" where
  "divide_by a b = (if b = 0 then Inl ZeroDivisionError else Inr (a / b))"

definition measure_backend :: "(nat \<Rightarrow> exn + ('r list option \<times> real)) \<Rightarrow> nat \<Rightarrow> exn + (real \<times> nat)" where
  "measure_backend call iterations =
     (case timed_runs call [0..<iterations] [] 0 of
        Inl e \<Rightarrow> Inl e
      | Inr (run_times, first_count) \<Rightarrow>
          (case average run_times of Inl e \<Rightarrow> Inl e | Inr avg \<Rightarrow> Inr (avg, first_count)))"

record comparison =
  sqlite_times :: "real list"
  sqlite_counts :: "nat list"
  tinydb_times :: "real list"
  tinydb_counts :: "nat list"

text \<open>The loop \<open>for query in queries\<close>.\<close>

fun measure_queries ::
  "'r backend \<Rightarrow> 'r backend \<Rightarrow> nat \<Rightarrow> string list \<Rightarrow> comparison \<Rightarrow> exn + comparison" where
  "measure_queries sqlite_storage tinydb_storage iterations [] results = Inr results"
| "measure_queries sqlite_storage tinydb_storage iterations (query # queries) results =
     (case measure_backend (sqlite_storage query) iterations of
        Inl e \<Rightarrow> Inl e
      | Inr (avg_sqlite_time, sqlite_result_count) \<Rightarrow>
          (case measure_backend (tinydb_storage query) iterations of
             Inl e \<Rightarrow> Inl e
           | Inr (avg_tinydb_time, tinydb_result_count) \<Rightarrow>
               measure_queries sqlite_storage tinydb_storage iterations queries
                 \<lparr>sqlite_times = sqlite_times results @ [avg_sqlite_time],
                  sqlite_counts = sqlite_counts results @ [sqlite_result_count],
                  tinydb_times = tinydb_times results @ [avg_tinydb_time],
                  tinydb_counts = tinydb_counts results @ [tinydb_result_count]\<rparr>))"

definition run_performance_comparison ::
  "'r backend \<Rightarrow> 'r backend \<Rightarrow> string list \<Rightarrow> nat \<Rightarrow> exn + comparison" where
  "run_performance_comparison sqlite_storage tinydb_storage queries iterations =
     (case measure_queries sqlite_storage tinydb_storage iterations queries
             \<lparr>sqlite_times = [], sqlite_counts = [], tinydb_times = [], tinydb_counts = []\<rparr> of
        Inl e \<Rightarrow> Inl e
      | Inr results \<Rightarrow>
          (case average (sqlite_times results) of
             Inl e \<Rightarrow> Inl e
           | Inr sqlite_avg_time \<Rightarrow>
               (case average (tinydb_times results) of
                  Inl e \<Rightarrow> Inl e
                | Inr tinydb_avg_time \<Rightarrow>
                    (case (if sqlite_avg_time < tinydb_avg_time
                           then divide_by tinydb_avg_time sqlite_avg_time
                           else divide_by sqlite_avg_time tinydb_avg_time) of
                       Inl e \<Rightarrow> Inl e
                     | Inr ratio \<Rightarrow> Inr results))))"

section \<open>The vocabulary of the claims\<close>

text \<open>\<open>q\<close> is a substring of \<open>s\<close> when the case of ASCII letters is ignored.\<close>

fun ci_prefix :: "string \<Rightarrow> string \<Rightarrow> bool" where
  "ci_prefix [] s = True"
| "ci_prefix (q # qs) [] = False"
| "ci_prefix (q # qs) (c # cs) = (ascii_lower q = ascii_lower c \<and> ci_prefix qs cs)"

fun ci_substring :: "string \<Rightarrow> string \<Rightarrow> bool" where
  "ci_substring q [] = (q = [])"
| "ci_substring q (c # cs) = (ci_prefix q (c # cs) \<or> ci_substring q cs)"

text \<open>A run of the document backend: calls of \<open>store_entity\<close> and
  \<open>store_entities\<close> in any order.\<close>

datatype tinydb_call = Store_entity entity_data | Store_entities batch

fun tinydb_run :: "tinydb_call list \<Rightarrow> tinydb \<Rightarrow> tinydb" where
  "tinydb_run [] t = t"
| "tinydb_run (Store_entity r # cs) t = tinydb_run cs (tinydb_store_entity r t)"
| "tinydb_run (Store_entities b # cs) t = tinydb_run cs (tinydb_store_entities b t)"

text \<open>No two documents of the table carry the same \<open>entity_id\<close>.\<close>

definition one_document_per_id :: "entity_data list \<Rightarrow> bool" where
  "one_document_per_id docs = distinct (map entity_id docs)"

section \<open>Sample records\<close>

definition doc_a :: entity_data where
  "doc_a = \<lparr>entity_id = Some ''Q1'', label = Some ''a'', description = None, entity_type = None,
     aliases = Some [\<lparr>alias_value = Some ''x'', alias_language = None\<rparr>], statements = None\<rparr>"

definition doc_b :: entity_data where
  "doc_b = \<lparr>entity_id = Some ''Q1'', label = Some ''b'', description = Some ''d'', entity_type = None,
     aliases = None, statements = Some []\<rparr>"

definition china :: entity_data where
  "china = \<lparr>entity_id = Some ''Q148'', label = Some ''China'',
     description = Some ''country in East Asia'', entity_type = Some ''country'',
     aliases = Some [\<lparr>alias_value = Some ''PRC'', alias_language = Some ''en''\<rparr>],
     statements = Some [\<lparr>stmt_property = Some \<lparr>property_id = Some ''P36'', property_label = Some ''capital''\<rparr>,
        stmt_value = Some ''Beijing'', stmt_entity_id = Some ''Q956''\<rparr>]\<rparr>"

definition china2 :: entity_data where
  "china2 = \<lparr>entity_id = Some ''Q148'', label = Some ''China'',
     description = Some ''state'', entity_type = Some ''country'',
     aliases = Some [\<lparr>alias_value = Some ''Zhongguo'', alias_language = Some ''zh''\<rparr>],
     statements = Some [\<lparr>stmt_property = Some \<lparr>property_id = Some ''P36'', property_label = Some ''capital city''\<rparr>,
        stmt_value = Some ''Peking'', stmt_entity_id = None\<rparr>]\<rparr>"

definition china_bare :: entity_data where
  "china_bare = \<lparr>entity_id = Some ''Q148'', label = Some ''China'', description = None,
     entity_type = None, aliases = Some [], statements = None\<rparr>"

definition two_labels :: entity_data where
  "two_labels = \<lparr>entity_id = Some ''Q1'', label = Some ''thing'', description = Some ''d'',
     entity_type = Some ''item'',
     aliases = Some [\<lparr>alias_value = Some ''t'', alias_language = Some ''en''\<rparr>],
     statements = Some
       [\<lparr>stmt_property = Some \<lparr>property_id = Some ''P1'', property_label = Some ''a''\<rparr>,
         stmt_value = Some ''x'', stmt_entity_id = None\<rparr>,
        \<lparr>stmt_property = Some \<lparr>property_id = Some ''P1'', property_label = Some ''b''\<rparr>,
         stmt_value = Some ''y'', stmt_entity_id = None\<rparr>]\<rparr>"

definition beijing :: entity_data where
  "beijing = \<lparr>entity_id = Some ''Q956'', label = Some ''Beijing'',
     description = Some ''capital of China'', entity_type = Some ''city'',
     aliases = Some [\<lparr>alias_value = Some ''Peking'', alias_language = Some ''en''\<rparr>],
     statements = Some [\<lparr>stmt_property = Some \<lparr>property_id = Some ''P17'', property_label = Some ''country''\<rparr>,
        stmt_value = Some ''China'', stmt_entity_id = Some ''Q148''\<rparr>]\<rparr>"

definition nameless :: entity_data where
  "nameless = \<lparr>entity_id = None, label = Some ''Atlantis'', description = None, entity_type = None,
     aliases = None, statements = None\<rparr>"

definition steady_backend :: "unit backend" where
  "steady_backend q i = Inr (Some [()], 2)"

definition flaky_backend :: "unit backend" where
  "flaky_backend q i = (if q = ''b'' \<and> i = 1 then Inl (BackendError ''boom'') else Inr (Some [], 1))"

section \<open>What a store leaves in the tables\<close>

text \<open>The rows that the two loops of \<open>store_entity\<close> add when nothing fails, with the
  row ids the AUTOINCREMENT counters give, starting after \<open>n\<close>.\<close>

fun alias_rows :: "string \<Rightarrow> nat \<Rightarrow> alias_data list \<Rightarrow> alias_row list" where
  "alias_rows eid n [] = []"
| "alias_rows eid n (a # as) =
     \<lparr>alias_rowid = Suc n, alias_entity_id = eid, alias_row_value = get_or [] (alias_value a),
      alias_row_language = get_or [] (alias_language a)\<rparr> # alias_rows eid (Suc n) as"

fun statement_rows :: "string \<Rightarrow> nat \<Rightarrow> statement_data list \<Rightarrow> statement_row list" where
  "statement_rows eid n [] = []"
| "statement_rows eid n (st # sts) =
     (case stmt_property st of
        None \<Rightarrow> statement_rows eid n sts
      | Some p \<Rightarrow>
          \<lparr>stmt_rowid = Suc n, stmt_row_entity_id = eid,
           stmt_row_property_id = get_or [] (property_id p),
           stmt_row_value = get_or [] (stmt_value st),
           stmt_row_entity_value_id = stmt_entity_id st\<rparr> # statement_rows eid (Suc n) sts)"

text \<open>The properties a list of statements mentions, as (id, label), in the order of the
  statements; statements without a property mention none.\<close>

fun mentions :: "statement_data list \<Rightarrow> (string \<times> string) list" where
  "mentions [] = []"
| "mentions (st # sts) =
     (case stmt_property st of
        None \<Rightarrow> mentions sts
      | Some p \<Rightarrow> (get_or [] (property_id p), get_or [] (property_label p)) # mentions sts)"

definition property_mentions :: "entity_data \<Rightarrow> (string \<times> string) list" where
  "property_mentions r = mentions (get_or [] (statements r))"

text \<open>The mentions of the statements that a call of \<open>store_entity\<close> stores when the
  engine does not fail: a record without \<open>entity_id\<close> gets none of its statements
  stored.\<close>

definition stored_mentions :: "entity_data \<Rightarrow> (string \<times> string) list" where
  "stored_mentions r = (case entity_id r of None \<Rightarrow> [] | Some eid \<Rightarrow> property_mentions r)"

definition upsert_property :: "string \<times> string \<Rightarrow> property_row list \<Rightarrow> property_row list" where
  "upsert_property m tbl =
     filter (\<lambda>p. prop_id p \<noteq> fst m) tbl @ [\<lparr>prop_id = fst m, prop_label = snd m\<rparr>]"

text \<open>The label the properties table holds for a property id, and the label of the last
  mention of a property id in a list of mentions.\<close>

definition stored_label :: "database \<Rightarrow> string \<Rightarrow> string option" where
  "stored_label d pid = map_option prop_label (find (\<lambda>p. prop_id p = pid) (properties_tbl d))"

definition last_label :: "(string \<times> string) list \<Rightarrow> string \<Rightarrow> string option" where
  "last_label ms pid = map_of (rev ms) pid"

section \<open>Comparing a record with the entity that comes back\<close>

text \<open>An alias of a record as the relational backend returns it: a missing value or
  language is the empty string.\<close>

definition alias_view_of :: "alias_data \<Rightarrow> alias_view" where
  "alias_view_of a = \<lparr>view_value = get_or [] (alias_value a), view_language = get_or [] (alias_language a)\<rparr>"

text \<open>What the claims compare of a statement: property id, property label, value and the
  referenced entity. A statement of a record has these when it carries a property; a
  returned statement has them besides its row id.\<close>

definition statement_fields :: "statement_data \<Rightarrow> (string \<times> string \<times> string \<times> string option) option" where
  "statement_fields st =
     (case stmt_property st of
        None \<Rightarrow> None
      | Some p \<Rightarrow> Some (get_or [] (property_id p), get_or [] (property_label p),
                        get_or [] (stmt_value st), truthy (stmt_entity_id st)))"

definition view_fields :: "statement_view \<Rightarrow> string \<times> string \<times> string \<times> string option" where
  "view_fields v = (sv_property_id v, sv_property_label v, sv_value v, sv_entity_id v)"

text \<open>The statements of a record give every property id one label.\<close>

definition one_label_per_property :: "statement_data list \<Rightarrow> bool" where
  "one_label_per_property sts =
     (\<forall>m \<in> set (mentions sts). \<forall>m' \<in> set (mentions sts). fst m = fst m' \<longrightarrow> snd m = snd m')"

text \<open>The record carries every key besides \<open>entity_id\<close>.\<close>

definition complete :: "entity_data \<Rightarrow> bool" where
  "complete r = (label r \<noteq> None \<and> description r \<noteq> None \<and> entity_type r \<noteq> None \<and>
     aliases r \<noteq> None \<and> statements r \<noteq> None)"

section \<open>The primary key of the properties table\<close>

definition one_row_per_property :: "database \<Rightarrow> bool" where
  "one_row_per_property d = distinct (map prop_id (properties_tbl d))"

text \<open>Both the file and the open transaction have one row per property id; a block of
  calls keeps that.\<close>

definition tables_ok :: "sqlite \<Rightarrow> bool" where
  "tables_ok s = (one_row_per_property (txn s) \<and> one_row_per_property (db_file s))"

definition keeps_tables_ok :: "(sqlite \<Rightarrow> (exn + 'a) \<times> sqlite) \<Rightarrow> bool" where
  "keeps_tables_ok m = (\<forall>s. tables_ok s \<longrightarrow> tables_ok (snd (m s)))"

section \<open>Matching entities\<close>

text \<open>The record \<open>{id, label, description}\<close> of a stored entity, for each backend.\<close>

definition row_hit :: "entity_row \<Rightarrow> string hit" where
  "row_hit e = \<lparr>hit_id = row_id e, hit_label = row_label e, hit_description = row_description e\<rparr>"

definition document_hit :: "entity_data \<Rightarrow> string option hit" where
  "document_hit d = \<lparr>hit_id = entity_id d, hit_label = label d, hit_description = description d\<rparr>"

text \<open>An entity of the relational store matches \<open>q\<close> when \<open>q\<close> is a substring, case
  ignored, of its label, of its description or of the value of one of its aliases.\<close>

definition sqlite_match :: "string \<Rightarrow> database \<Rightarrow> entity_row \<Rightarrow> bool" where
  "sqlite_match q d e =
     (ci_substring q (row_label e) \<or> ci_substring q (row_description e) \<or>
      (\<exists>a \<in> set (aliases_tbl d). row_id e = alias_entity_id a \<and> ci_substring q (alias_row_value a)))"

text \<open>A document matches \<open>q\<close> when \<open>q\<close> is such a substring of its label or of its
  description; its aliases do not count.\<close>

definition field_contains :: "string \<Rightarrow> string option \<Rightarrow> bool" where
  "field_contains q v = (case v of None \<Rightarrow> False | Some x \<Rightarrow> ci_substring q x)"

definition tinydb_match :: "string \<Rightarrow> entity_data \<Rightarrow> bool" where
  "tinydb_match q d = (field_contains q (label d) \<or> field_contains q (description d))"

text \<open>On the labels and descriptions of these documents the search function finds \<open>q\<close>
  exactly where \<open>q\<close> is a substring, the case of ASCII letters ignored. Python's
  \<open>re.search\<close> with \<open>re.IGNORECASE\<close> does so when \<open>q\<close> has no regular expression
  operator and the text has no letter outside ASCII that Unicode case folding equates with a
  letter of \<open>q\<close>.\<close>

definition searches_plainly ::
  "(string \<Rightarrow> string \<Rightarrow> exn + bool) \<Rightarrow> string \<Rightarrow> entity_data list \<Rightarrow> bool" where
  "searches_plainly re_search q docs =
     (\<forall>d \<in> set docs.
        field_search re_search q (label d) = Inr (field_contains q (label d)) \<and>
        field_search re_search q (description d) = Inr (field_contains q (description d)))"

text \<open>Substring search that ignores the case of ASCII letters only. It is not
  \<open>re.search\<close>, which folds case by Unicode; the two agree where pattern and text are
  made of ASCII letters, digits and spaces, as in the examples below that use it.\<close>

definition ascii_search :: "string \<Rightarrow> string \<Rightarrow> exn + bool" where
  "ascii_search q x = Inr (ci_substring q x)"

text \<open>The rows of the join that belong to one entity.\<close>

definition joined :: "database \<Rightarrow> entity_row \<Rightarrow> (entity_row \<times> alias_row option) list" where
  "joined d e = (case filter (\<lambda>a. row_id e = alias_entity_id a) (aliases_tbl d) of
                   [] \<Rightarrow> [(e, None)]
                 | ms \<Rightarrow> map (\<lambda>a. (e, Some a)) ms)"

chapter \<open>Properties\<close>

section \<open>The document backend keeps one document per id\<close>

lemma entity_id_dict_update:
  "entity_id new = Some eid \<Longrightarrow> entity_id (dict_update d new) = Some eid"
  by (simp add: dict_update_def override_def)

lemma table_update_ids:
  "entity_id new = Some eid \<Longrightarrow>
   map entity_id (table_update new (entity_id_is eid) docs) = map entity_id docs"
  by (induction docs) (simp_all add: table_update_def entity_id_is_def entity_id_dict_update)

lemma table_get_None:
  "table_get (entity_id_is eid) docs = None \<longleftrightarrow> Some eid \<notin> set (map entity_id docs)"
  by (induction docs) (auto simp: table_get_def entity_id_is_def)

lemma tinydb_store_entity_keeps_invariant:
  assumes "one_document_per_id (entities t)"
  shows "one_document_per_id (entities (tinydb_store_entity r t))"
proof (cases "entity_id r")
  case None
  then show ?thesis using assms by (simp add: tinydb_store_entity_def)
next
  case (Some eid)
  show ?thesis
  proof (cases "eid = [] \<or> table_get (entity_id_is eid) (entities t) \<noteq> None")
    case True
    then show ?thesis using assms Some
      by (auto simp: tinydb_store_entity_def one_document_per_id_def table_update_ids)
  next
    case False
    then have "Some eid \<notin> set (map entity_id (entities t))"
      by (simp add: table_get_None)
    then show ?thesis using assms Some False
      by (simp add: tinydb_store_entity_def one_document_per_id_def table_insert_def)
  qed
qed

lemma tinydb_store_each_keeps_invariant:
  "one_document_per_id (entities t) \<Longrightarrow> one_document_per_id (entities (tinydb_store_each rs t))"
  by (induction rs arbitrary: t) (simp_all add: tinydb_store_entity_keeps_invariant)

lemma tinydb_run_keeps_invariant:
  "one_document_per_id (entities t) \<Longrightarrow> one_document_per_id (entities (tinydb_run cs t))"
proof (induction cs arbitrary: t)
  case Nil
  then show ?case by simp
next
  case (Cons c cs)
  then show ?case
    by (cases c)
       (simp_all add: tinydb_store_entity_keeps_invariant tinydb_store_entities_def
          tinydb_store_each_keeps_invariant)
qed

lemma tinydb_store_entity_cases:
  assumes "entity_id r = Some eid" and "eid \<noteq> []"
  shows "entities (tinydb_store_entity r t) =
     (if Some eid \<in> set (map entity_id (entities t))
      then map (\<lambda>d. if entity_id d = Some eid then dict_update d r else d) (entities t)
      else entities t @ [r])"
proof (cases "table_get (entity_id_is eid) (entities t)")
  case None
  then have "Some eid \<notin> set (map entity_id (entities t))"
    by (simp add: table_get_None)
  then show ?thesis using assms None
    by (simp add: tinydb_store_entity_def table_insert_def)
next
  case (Some a)
  then have "Some eid \<in> set (map entity_id (entities t))"
    using table_get_None [of eid "entities t"] by simp
  then show ?thesis using assms Some
    by (simp add: tinydb_store_entity_def table_update_def entity_id_is_def)
qed

text \<open>
  Claim C9. Starting from an empty table, after any sequence of \<open>store_entity\<close> and
  \<open>store_entities\<close> calls of the document backend no two documents carry the same
  \<open>entity_id\<close>; and \<open>store_entity\<close> of a record with a non-empty id updates the
  documents with that id when there is one and appends the record as a new document only
  when there is none.
\<close>

theorem tinydb_at_most_one_document_per_entity_id:
  assumes "entity_id r = Some eid" and "eid \<noteq> []"
  shows "one_document_per_id (entities (tinydb_run calls new_tinydb)) \<and>
     entities (tinydb_store_entity r t) =
       (if Some eid \<in> set (map entity_id (entities t))
        then map (\<lambda>d. if entity_id d = Some eid then dict_update d r else d) (entities t)
        else entities t @ [r])"
proof -
  have "one_document_per_id (entities new_tinydb)"
    by (simp add: one_document_per_id_def new_tinydb_def)
  then have "one_document_per_id (entities (tinydb_run calls new_tinydb))"
    by (rule tinydb_run_keeps_invariant)
  then show ?thesis using tinydb_store_entity_cases [OF assms] by simp
qed

theorem tinydb_at_most_one_document_per_entity_id_witness:
  "entity_id doc_b = Some ''Q1'' \<and> ''Q1'' \<noteq> [] \<and>
   one_document_per_id (entities (tinydb_run [Store_entity doc_a, Store_entities (Records [doc_b, doc_a])] new_tinydb)) \<and>
   entities (tinydb_store_entity doc_b (tinydb_store_entity doc_a new_tinydb)) =
     [\<lparr>entity_id = Some ''Q1'', label = Some ''b'', description = Some ''d'', entity_type = None,
       aliases = Some [\<lparr>alias_value = Some ''x'', alias_language = None\<rparr>], statements = Some []\<rparr>]"
  using tinydb_at_most_one_document_per_entity_id [of doc_b "''Q1''"
      "[Store_entity doc_a, Store_entities (Records [doc_b, doc_a])]" "tinydb_store_entity doc_a new_tinydb"]
  by (simp add: doc_a_def doc_b_def tinydb_store_entity_def new_tinydb_def table_get_def
      entity_id_is_def table_insert_def dict_update_def override_def)

section \<open>The relational backend under engine failures\<close>

lemma connect_ok:
  "\<not> fails (clock s) \<Longrightarrow>
   get_db_connection fails s =
     (Inr (), s\<lparr>clock := Suc (clock s), txn := db_file s, open_connections := Suc (open_connections s)\<rparr>)"
  by (simp add: get_db_connection_def)

lemma execute_frame:
  "execute fails f s = (res, s') \<Longrightarrow>
   db_file s' = db_file s \<and> open_connections s' = open_connections s \<and> printed s' = printed s"
  by (auto simp: execute_def split: if_splits)

lemma fetch_frame:
  "fetch fails q s = (res, s') \<Longrightarrow>
   db_file s' = db_file s \<and> txn s' = txn s \<and> open_connections s' = open_connections s \<and>
   printed s' = printed s"
  by (auto simp: fetch_def split: if_splits)

lemma commit_frame:
  "commit fails s = (res, s') \<Longrightarrow> open_connections s' = open_connections s \<and> printed s' = printed s"
  by (auto simp: commit_def split: if_splits)

lemma commit_raises:
  "commit fails s = (Inl e, s') \<Longrightarrow> db_file s' = db_file s"
  by (auto simp: commit_def split: if_splits)

lemma insert_aliases_frame:
  "insert_aliases fails r as s = (res, s') \<Longrightarrow>
   db_file s' = db_file s \<and> open_connections s' = open_connections s \<and> printed s' = printed s"
proof (induction as arbitrary: s)
  case Nil
  then show ?case by simp
next
  case (Cons a as)
  show ?case
  proof (cases "getitem_entity_id r")
    case (Inl e)
    then show ?thesis using Cons.prems by simp
  next
    case (Inr eid)
    obtain res1 s1 where ex: "execute fails (insert_alias eid (get_or [] (alias_value a))
        (get_or [] (alias_language a))) s = (res1, s1)"
      by (cases "execute fails (insert_alias eid (get_or [] (alias_value a))
        (get_or [] (alias_language a))) s") 
    note fr = execute_frame [OF ex]
    show ?thesis
    proof (cases res1)
      case (Inl e)
      then show ?thesis using Cons.prems Inr ex fr by simp
    next
      case (Inr u)
      then have "insert_aliases fails r as s1 = (res, s')"
        using Cons.prems \<open>getitem_entity_id r = Inr eid\<close> ex by simp
      from Cons.IH [OF this] fr show ?thesis by simp
    qed
  qed
qed

lemma insert_statements_frame:
  "insert_statements fails r sts s = (res, s') \<Longrightarrow>
   db_file s' = db_file s \<and> open_connections s' = open_connections s \<and> printed s' = printed s"
proof (induction sts arbitrary: s)
  case Nil
  then show ?case by simp
next
  case (Cons st sts)
  show ?case
  proof (cases "stmt_property st")
    case None
    then show ?thesis using Cons by simp
  next
    case (Some p)
    obtain res1 s1 where ex1: "execute fails (insert_or_replace_property (get_or [] (property_id p))
        (get_or [] (property_label p))) s = (res1, s1)"
      by (cases "execute fails (insert_or_replace_property (get_or [] (property_id p))
        (get_or [] (property_label p))) s")
    note fr1 = execute_frame [OF ex1]
    show ?thesis
    proof (cases res1)
      case (Inl e)
      then show ?thesis using Cons.prems Some ex1 fr1 by simp
    next
      case r1: (Inr u)
      show ?thesis
      proof (cases "getitem_entity_id r")
        case (Inl e)
        then show ?thesis using Cons.prems Some ex1 fr1 r1 by simp
      next
        case (Inr eid)
        obtain res2 s2 where ex2: "execute fails (insert_statement eid (get_or [] (property_id p))
            (get_or [] (stmt_value st)) (stmt_entity_id st)) s1 = (res2, s2)"
          by (cases "execute fails (insert_statement eid (get_or [] (property_id p))
            (get_or [] (stmt_value st)) (stmt_entity_id st)) s1")
        note fr2 = execute_frame [OF ex2]
        show ?thesis
        proof (cases res2)
          case (Inl e)
          then show ?thesis using Cons.prems Some ex1 fr1 r1 Inr ex2 fr2 by simp
        next
          case r2: (Inr u2)
          then have "insert_statements fails r sts s2 = (res, s')"
            using Cons.prems Some ex1 r1 Inr ex2 by simp
          from Cons.IH [OF this] fr1 fr2 show ?thesis by simp
        qed
      qed
    qed
  qed
qed

lemma and_then_cases:
  "and_then m f s = (res, s') \<Longrightarrow>
   (\<exists>e. m s = (Inl e, s') \<and> res = Inl e) \<or> (\<exists>x s1. m s = (Inr x, s1) \<and> f x s1 = (res, s'))"
  by (auto simp: and_then_def split: prod.splits sum.splits)

lemma store_entity_try_frame:
  assumes "store_entity_try fails r s = (res, s')"
  shows "open_connections s' = open_connections s \<and> printed s' = printed s"
  using assms unfolding store_entity_try_def
  by (auto dest!: and_then_cases execute_frame insert_aliases_frame insert_statements_frame commit_frame
      simp: done_with_def eval_pure_def split: option.splits)

lemma store_entity_try_raises:
  assumes "store_entity_try fails r s = (Inl e, s')"
  shows "db_file s' = db_file s"
  using assms unfolding store_entity_try_def
  by (auto dest!: and_then_cases execute_frame insert_aliases_frame insert_statements_frame commit_raises
      simp: done_with_def eval_pure_def split: option.splits)


lemma get_entity_try_frame:
  assumes "get_entity_try fails eid s = (res, s')"
  shows "open_connections s' = open_connections s \<and> printed s' = printed s \<and> db_file s' = db_file s"
  using assms unfolding get_entity_try_def
  by (auto dest!: and_then_cases fetch_frame simp: done_with_def split: option.splits)

lemma get_entity_try_absent:
  assumes "eid \<notin> set (map row_id (entities_tbl (txn s)))"
  shows "fst (get_entity_try fails eid s) = Inr None \<or> (\<exists>e. fst (get_entity_try fails eid s) = Inl e)"
proof -
  have "select_entity eid (txn s) = None"
    using assms by (auto simp: select_entity_def find_None_iff)
  then show ?thesis
    by (simp add: get_entity_try_def and_then_def fetch_def done_with_def)
qed

lemma search_entities_try_frame:
  assumes "search_entities_try fails q n s = (res, s')"
  shows "open_connections s' = open_connections s \<and> printed s' = printed s \<and>
     db_file s' = db_file s"
  using assms unfolding search_entities_try_def
  by (auto dest!: and_then_cases fetch_frame simp: eval_pure_def)

text \<open>
  Claim C6. In the relational backend \<open>store_entity\<close> is atomic for its entity: once
  the connection is open, if any step inside the \<open>try\<close> block raises (the entity row,
  the deletion or insertion of an alias, a property row, the deletion or insertion of a
  statement, the commit, or the lookup of a missing \<open>entity_id\<close>), the method returns
  normally, the database file and the connection's view are what the file was before the
  call, the failure is printed, the connection is closed, and a batch goes on with the next
  record.
\<close>

theorem sqlite_store_entity_atomic:
  assumes "\<not> fails (clock s)"
    and "fst (store_entity_try fails r (snd (get_db_connection fails s))) = Inl e"
  shows "fst (sqlite_store_entity fails r s) = Inr () \<and>
     db_file (snd (sqlite_store_entity fails r s)) = db_file s \<and>
     txn (snd (sqlite_store_entity fails r s)) = db_file s \<and>
     printed (snd (sqlite_store_entity fails r s)) =
       printed s @ [Store_failed (get_or ''unknown'' (entity_id r)) e] \<and>
     open_connections (snd (sqlite_store_entity fails r s)) = open_connections s \<and>
     sqlite_store_each fails (r # rs) s =
       sqlite_store_each fails rs (snd (sqlite_store_entity fails r s))"
proof -
  let ?s1 = "s\<lparr>clock := Suc (clock s), txn := db_file s, open_connections := Suc (open_connections s)\<rparr>"
  have c: "get_db_connection fails s = (Inr (), ?s1)"
    using assms(1) by (rule connect_ok)
  obtain s2 where t: "store_entity_try fails r ?s1 = (Inl e, s2)"
    using assms(2) c by (cases "store_entity_try fails r ?s1") simp
  from store_entity_try_raises [OF t] have d: "db_file s2 = db_file s" by simp
  from store_entity_try_frame [OF t]
  have f: "open_connections s2 = Suc (open_connections s)" "printed s2 = printed s" by simp_all
  have r: "sqlite_store_entity fails r s =
      (Inr (), close (rollback (print (Store_failed (get_or ''unknown'' (entity_id r)) e) s2)))"
    by (simp add: sqlite_store_entity_def c t)
  show ?thesis
    by (simp add: r d f close_def rollback_def print_def)
qed

text \<open>
  Claim C7. For an id that no stored entity has (the store may be empty),
  \<open>get_entity_by_id\<close> never returns an entity, in either backend and whatever fails; it
  returns \<open>None\<close> in the document backend, and in the relational backend whenever the
  connection to the store opens, whatever fails after that.
\<close>

theorem get_entity_by_id_not_found:
  assumes "eid \<notin> set (map row_id (entities_tbl (db_file s)))"
    and "Some eid \<notin> set (map entity_id (entities t))"
  shows "(\<not> fails (clock s) \<longrightarrow> fst (sqlite_get_entity_by_id fails eid s) = Inr None) \<and>
     (\<forall>e. fst (sqlite_get_entity_by_id fails eid s) \<noteq> Inr (Some e)) \<and>
     tinydb_get_entity_by_id eid t = None"
proof -
  let ?s1 = "s\<lparr>clock := Suc (clock s), txn := db_file s, open_connections := Suc (open_connections s)\<rparr>"
  have opened: "fst (sqlite_get_entity_by_id fails eid s) = Inr None" if "\<not> fails (clock s)"
  proof -
    have c: "get_db_connection fails s = (Inr (), ?s1)"
      using that by (rule connect_ok)
    have "eid \<notin> set (map row_id (entities_tbl (txn ?s1)))"
      using assms(1) by simp
    from get_entity_try_absent [OF this, of fails]
    show ?thesis
      by (auto simp: sqlite_get_entity_by_id_def c split: prod.splits sum.splits)
  qed
  have refused: "\<exists>x. fst (sqlite_get_entity_by_id fails eid s) = Inl x" if "fails (clock s)"
    using that by (simp add: sqlite_get_entity_by_id_def get_db_connection_def)
  have "\<forall>e. fst (sqlite_get_entity_by_id fails eid s) \<noteq> Inr (Some e)"
    using opened refused by (cases "fails (clock s)") auto
  moreover have "tinydb_get_entity_by_id eid t = None"
    using assms(2) by (simp add: tinydb_get_entity_by_id_def table_get_None)
  ultimately show ?thesis using opened by simp
qed

text \<open>
  Claim C10, as amended. Once the connection is open, \<open>get_entity_by_id\<close> and
  \<open>search_entities\<close> of the relational backend return normally whatever the engine does
  afterwards: the result of the \<open>try\<close> block when it succeeds, \<open>None\<close> and the empty list
  when it raises; in both cases the connection the call opened is closed again.
\<close>

theorem sqlite_reads_catch_and_close:
  assumes "\<not> fails (clock s)"
  shows "fst (sqlite_get_entity_by_id fails eid s) =
       (case fst (get_entity_try fails eid (snd (get_db_connection fails s))) of
          Inl e \<Rightarrow> Inr None | Inr v \<Rightarrow> Inr v) \<and>
     open_connections (snd (sqlite_get_entity_by_id fails eid s)) = open_connections s \<and>
     fst (sqlite_search_entities fails q n s) =
       (case fst (search_entities_try fails q n (snd (get_db_connection fails s))) of
          Inl e \<Rightarrow> Inr [] | Inr v \<Rightarrow> Inr v) \<and>
     open_connections (snd (sqlite_search_entities fails q n s)) = open_connections s"
proof -
  let ?s1 = "s\<lparr>clock := Suc (clock s), txn := db_file s, open_connections := Suc (open_connections s)\<rparr>"
  have c: "get_db_connection fails s = (Inr (), ?s1)"
    using assms(1) by (rule connect_ok)
  obtain res s2 where g: "get_entity_try fails eid ?s1 = (res, s2)"
    by (cases "get_entity_try fails eid ?s1")
  from get_entity_try_frame [OF g] have og: "open_connections s2 = Suc (open_connections s)"
    by simp
  obtain res' s3 where h: "search_entities_try fails q n ?s1 = (res', s3)"
    by (cases "search_entities_try fails q n ?s1")
  then have oh: "open_connections s3 = Suc (open_connections s)"
    using search_entities_try_frame [of fails q n ?s1 res' s3] by simp
  show ?thesis
    by (cases res; cases res')
       (simp_all add: sqlite_get_entity_by_id_def sqlite_search_entities_def c g h og oh
         close_def print_def)
qed

text \<open>
  Claim C10 as stated fails: the connection is opened before the \<open>try\<close> block, so an
  exception of \<open>sqlite3.connect\<close> leaves both methods as an exception.
\<close>

theorem sqlite_reads_propagate_connect_failure:
  "fst (sqlite_get_entity_by_id (fails_at 0) ''Q1'' new_sqlite) = Inl OperationalError \<and>
   fst (sqlite_search_entities (fails_at 0) ''a'' 10 new_sqlite) = Inl OperationalError"
  by (simp add: sqlite_get_entity_by_id_def sqlite_search_entities_def get_db_connection_def
      new_sqlite_def fails_at_def)


theorem sqlite_store_entity_atomic_witness:
  "\<not> (fails_at 3) (clock new_sqlite) \<and>
   fst (store_entity_try (fails_at 3) china (snd (get_db_connection (fails_at 3) new_sqlite))) =
     Inl OperationalError \<and>
   fst (sqlite_store_entity (fails_at 3) china new_sqlite) = Inr () \<and>
   db_file (snd (sqlite_store_entity (fails_at 3) china new_sqlite)) = empty_database \<and>
   printed (snd (sqlite_store_entity (fails_at 3) china new_sqlite)) =
     [Store_failed ''Q148'' OperationalError]"
proof -
  have h1: "\<not> (fails_at 3) (clock new_sqlite)"
    by (simp add: new_sqlite_def fails_at_def)
  have h2: "fst (store_entity_try (fails_at 3) china (snd (get_db_connection (fails_at 3) new_sqlite))) =
     Inl OperationalError"
    by (simp add: store_entity_try_def get_db_connection_def new_sqlite_def china_def
        and_then_def execute_def eval_pure_def present_nonempty_def getitem_entity_id_def
        fails_at_def)
  show ?thesis
    using sqlite_store_entity_atomic [of "fails_at 3" new_sqlite china OperationalError "[]", OF h1 h2] h1 h2
    by (simp add: new_sqlite_def china_def get_or_def)
qed

theorem get_entity_by_id_not_found_witness:
  "''Q1'' \<notin> set (map row_id (entities_tbl (db_file new_sqlite))) \<and>
   Some ''Q1'' \<notin> set (map entity_id (entities new_tinydb)) \<and>
   \<not> no_faults (clock new_sqlite) \<and>
   fst (sqlite_get_entity_by_id no_faults ''Q1'' new_sqlite) = Inr None \<and>
   tinydb_get_entity_by_id ''Q1'' new_tinydb = None"
proof -
  have h1: "''Q1'' \<notin> set (map row_id (entities_tbl (db_file new_sqlite)))"
    by (simp add: new_sqlite_def empty_database_def)
  have h2: "Some ''Q1'' \<notin> set (map entity_id (entities new_tinydb))"
    by (simp add: new_tinydb_def)
  have h3: "\<not> no_faults (clock new_sqlite)"
    by (simp add: no_faults_def)
  show ?thesis
    using get_entity_by_id_not_found [of "''Q1''" new_sqlite new_tinydb no_faults, OF h1 h2] h1 h2 h3
    by simp
qed

theorem sqlite_reads_catch_and_close_witness:
  "\<not> (fails_at 1) (clock new_sqlite) \<and>
   fst (sqlite_get_entity_by_id (fails_at 1) ''Q1'' new_sqlite) = Inr None \<and>
   open_connections (snd (sqlite_get_entity_by_id (fails_at 1) ''Q1'' new_sqlite)) = 0 \<and>
   fst (sqlite_search_entities (fails_at 1) ''a'' 10 new_sqlite) = Inr [] \<and>
   open_connections (snd (sqlite_search_entities (fails_at 1) ''a'' 10 new_sqlite)) = 0"
proof -
  have h1: "\<not> (fails_at 1) (clock new_sqlite)"
    by (simp add: new_sqlite_def fails_at_def)
  show ?thesis
    using sqlite_reads_catch_and_close [of "fails_at 1" new_sqlite "''Q1''" "''a''" 10, OF h1] h1
    by (simp add: new_sqlite_def get_db_connection_def get_entity_try_def search_entities_try_def
        and_then_def fetch_def fails_at_def eval_pure_def bind_integer_def)
qed

section \<open>The benchmark harness and exceptions\<close>

lemma timed_runs_raises:
  "i \<in> set is \<Longrightarrow> call i = Inl e \<Longrightarrow> \<exists>e'. timed_runs call is ts c = Inl e'"
proof (induction "is" arbitrary: ts c)
  case Nil
  then show ?case by simp
next
  case (Cons j js)
  show ?case
  proof (cases "call j")
    case (Inl a)
    then show ?thesis by simp
  next
    case (Inr b)
    then have "i \<in> set js" using Cons.prems by auto
    from Cons.IH [OF this Cons.prems(2)] Inr show ?thesis
      by (cases b) simp
  qed
qed

lemma measure_backend_raises:
  assumes "i < iterations" and "call i = Inl e"
  shows "\<exists>e'. measure_backend call iterations = Inl e'"
proof -
  have "i \<in> set [0..<iterations]" using assms(1) by simp
  from timed_runs_raises [where call = call and i = i and e = e, OF this assms(2)]
  obtain e' where "timed_runs call [0..<iterations] [] 0 = Inl e'" by blast
  then show ?thesis by (simp add: measure_backend_def)
qed

lemma measure_queries_raises:
  assumes "q \<in> set queries" and "i < iterations"
    and "sqlite_storage q i = Inl e \<or> tinydb_storage q i = Inl e"
  shows "\<exists>e'. measure_queries sqlite_storage tinydb_storage iterations queries results = Inl e'"
  using assms(1)
proof (induction queries arbitrary: results)
  case Nil
  then show ?case by simp
next
  case (Cons query queries)
  show ?case
  proof (cases "measure_backend (sqlite_storage query) iterations")
    case (Inl a)
    then show ?thesis by simp
  next
    case s: (Inr sm)
    show ?thesis
    proof (cases "measure_backend (tinydb_storage query) iterations")
      case (Inl a)
      then show ?thesis using s by (cases sm) simp
    next
      case t: (Inr tm)
      have "q \<noteq> query"
      proof
        assume "q = query"
        then have "(\<exists>e'. measure_backend (sqlite_storage query) iterations = Inl e') \<or>
            (\<exists>e'. measure_backend (tinydb_storage query) iterations = Inl e')"
          using assms(2,3)
            measure_backend_raises [where call = "sqlite_storage query" and i = i and e = e]
            measure_backend_raises [where call = "tinydb_storage query" and i = i and e = e]
          by blast
        then show False using s t by auto
      qed
      then have "q \<in> set queries" using Cons.prems by simp
      from Cons.IH [OF this] show ?thesis using s t
        by (cases sm; cases tm) simp
    qed
  qed
qed

text \<open>
  Claim C5, as amended. \<open>run_performance_comparison\<close> has no exception handler: if a
  \<open>natural_language_query\<close> call of either backend raises in some timed run of some
  question, the harness itself ends with an exception and returns no measurements.
\<close>

theorem harness_propagates_backend_exception:
  assumes "q \<in> set queries" and "i < iterations"
    and "sqlite_storage q i = Inl e \<or> tinydb_storage q i = Inl e"
  shows "\<exists>e'. run_performance_comparison sqlite_storage tinydb_storage queries iterations = Inl e'"
proof -
  from measure_queries_raises [where sqlite_storage = sqlite_storage
      and tinydb_storage = tinydb_storage and q = q and i = i and e = e, OF assms]
  obtain e' where "measure_queries sqlite_storage tinydb_storage iterations queries
      \<lparr>sqlite_times = [], sqlite_counts = [], tinydb_times = [], tinydb_counts = []\<rparr> = Inl e'"
    by blast
  then show ?thesis by (simp add: run_performance_comparison_def)
qed

text \<open>
  Claim C5 as stated fails: the second run of question \<open>b\<close> raises in one backend, and
  the exception leaves the harness; the failed run is not set aside and question \<open>c\<close> is
  never measured.
\<close>

theorem harness_aborts_on_failed_run:
  "run_performance_comparison steady_backend flaky_backend [''a'', ''b'', ''c''] 2 =
     Inl (BackendError ''boom'')"
  by (simp add: run_performance_comparison_def measure_backend_def steady_backend_def
      flaky_backend_def average_def upt_rec result_count_def)

theorem harness_propagates_backend_exception_witness:
  "''b'' \<in> set [''b'', ''c''] \<and> (1::nat) < 3 \<and>
   (steady_backend ''b'' 1 = Inl (BackendError ''boom'') \<or>
    flaky_backend ''b'' 1 = Inl (BackendError ''boom'')) \<and>
   (\<exists>e'. run_performance_comparison steady_backend flaky_backend [''b'', ''c''] 3 = Inl e')"
proof -
  have h1: "''b'' \<in> set [''b'', ''c'']" by simp
  have h2: "(1::nat) < 3" by simp
  have h3: "steady_backend ''b'' 1 = Inl (BackendError ''boom'') \<or>
    flaky_backend ''b'' 1 = Inl (BackendError ''boom'')"
    by (simp add: flaky_backend_def)
  show ?thesis
    using harness_propagates_backend_exception [where sqlite_storage = steady_backend
        and tinydb_storage = flaky_backend and q = "''b''" and i = 1
        and e = "BackendError ''boom''", OF h1 h2 h3] h1 h2 h3
    by blast
qed

section \<open>Records without an id\<close>

text \<open>
  Claim C4 at a failing input. A batch whose first record has no \<open>entity_id\<close> (and no
  aliases or statements): the relational backend stores an entity row under the empty id
  and prints nothing; the document backend skips the record and prints its warning. Both
  store the well-formed record that follows.
\<close>

theorem sqlite_stores_record_without_entity_id:
  "entities_tbl (db_file (snd (sqlite_store_entities no_faults (Records [nameless, china]) new_sqlite))) =
     [\<lparr>row_id = [], row_label = ''Atlantis'', row_description = [], row_type = []\<rparr>,
      \<lparr>row_id = ''Q148'', row_label = ''China'', row_description = ''country in East Asia'',
        row_type = ''country''\<rparr>] \<and>
   printed (snd (sqlite_store_entities no_faults (Records [nameless, china]) new_sqlite)) = [] \<and>
   tinydb_store_entities (Records [nameless, china]) new_tinydb =
     \<lparr>entities = [china], tiny_printed = [Missing_entity_id]\<rparr>"
  by (simp add: sqlite_store_entities_def create_tables_def sqlite_store_entity_def
      store_entity_try_def get_db_connection_def execute_def commit_def close_def and_then_def
      done_with_def eval_pure_def present_nonempty_def getitem_entity_id_def get_or_def
      no_faults_def new_sqlite_def empty_database_def batch_records_def nameless_def china_def
      insert_or_replace_entity_def delete_aliases_def insert_alias_def delete_statements_def
      insert_or_replace_property_def insert_statement_def
      tinydb_store_entities_def tinydb_store_entity_def new_tinydb_def table_get_def
      table_insert_def entity_id_is_def)

section \<open>A store when nothing fails\<close>

lemma execute_no_faults:
  "execute no_faults f s = (Inr (), s\<lparr>clock := Suc (clock s), txn := f (txn s)\<rparr>)"
  by (simp add: execute_def no_faults_def)

lemma insert_aliases_effect:
  assumes "entity_id r = Some eid"
  shows "fst (insert_aliases no_faults r as s) = Inr () \<and>
     aliases_tbl (txn (snd (insert_aliases no_faults r as s))) =
       aliases_tbl (txn s) @ alias_rows eid (aliases_seq (txn s)) as \<and>
     entities_tbl (txn (snd (insert_aliases no_faults r as s))) = entities_tbl (txn s) \<and>
     properties_tbl (txn (snd (insert_aliases no_faults r as s))) = properties_tbl (txn s) \<and>
     statements_tbl (txn (snd (insert_aliases no_faults r as s))) = statements_tbl (txn s) \<and>
     statements_seq (txn (snd (insert_aliases no_faults r as s))) = statements_seq (txn s)"
proof (induction as arbitrary: s)
  case Nil
  show ?case by simp
next
  case (Cons a as)
  have g: "getitem_entity_id r = Inr eid"
    using assms by (simp add: getitem_entity_id_def)
  show ?case
    by (simp add: g execute_no_faults Cons.IH insert_alias_def)
qed

lemma insert_statements_effect:
  assumes "entity_id r = Some eid"
  shows "fst (insert_statements no_faults r sts s) = Inr () \<and>
     statements_tbl (txn (snd (insert_statements no_faults r sts s))) =
       statements_tbl (txn s) @ statement_rows eid (statements_seq (txn s)) sts \<and>
     properties_tbl (txn (snd (insert_statements no_faults r sts s))) =
       fold upsert_property (mentions sts) (properties_tbl (txn s)) \<and>
     entities_tbl (txn (snd (insert_statements no_faults r sts s))) = entities_tbl (txn s) \<and>
     aliases_tbl (txn (snd (insert_statements no_faults r sts s))) = aliases_tbl (txn s)"
proof (induction sts arbitrary: s)
  case Nil
  show ?case by simp
next
  case (Cons st sts)
  have g: "getitem_entity_id r = Inr eid"
    using assms by (simp add: getitem_entity_id_def)
  show ?case
  proof (cases "stmt_property st")
    case None
    then show ?thesis by (simp add: Cons.IH)
  next
    case (Some p)
    then show ?thesis
      by (simp add: g execute_no_faults Cons.IH insert_statement_def
          insert_or_replace_property_def upsert_property_def)
  qed
qed


lemma and_then_fst:
  "fst (m s) = Inr x \<Longrightarrow> and_then m f s = f x (snd (m s))"
  by (cases "m s") (simp add: and_then_def)

lemma alias_block_effect:
  assumes "entity_id r = Some eid"
  defines "blk \<equiv> (case present_nonempty (aliases r) of
                 None \<Rightarrow> done_with ()
               | Some as \<Rightarrow>
                   and_then (eval_pure (getitem_entity_id r)) (\<lambda>eid.
                   and_then (execute no_faults (delete_aliases eid)) (\<lambda>_.
                   insert_aliases no_faults r as)))"
  shows "fst (blk s) = Inr () \<and>
     aliases_tbl (txn (snd (blk s))) =
       (case present_nonempty (aliases r) of
          None \<Rightarrow> aliases_tbl (txn s)
        | Some as \<Rightarrow> filter (\<lambda>a. alias_entity_id a \<noteq> eid) (aliases_tbl (txn s)) @
                     alias_rows eid (aliases_seq (txn s)) as) \<and>
     entities_tbl (txn (snd (blk s))) = entities_tbl (txn s) \<and>
     properties_tbl (txn (snd (blk s))) = properties_tbl (txn s) \<and>
     statements_tbl (txn (snd (blk s))) = statements_tbl (txn s) \<and>
     statements_seq (txn (snd (blk s))) = statements_seq (txn s)"
proof (cases "present_nonempty (aliases r)")
  case None
  then show ?thesis by (simp add: blk_def done_with_def)
next
  case (Some as)
  have g: "getitem_entity_id r = Inr eid"
    using assms(1) by (simp add: getitem_entity_id_def)
  show ?thesis
    by (simp add: blk_def Some g and_then_def eval_pure_def execute_no_faults
        insert_aliases_effect [OF assms(1)] delete_aliases_def)
qed

lemma statement_block_effect:
  assumes "entity_id r = Some eid"
  defines "blk \<equiv> (case present_nonempty (statements r) of
                 None \<Rightarrow> done_with ()
               | Some sts \<Rightarrow>
                   and_then (eval_pure (getitem_entity_id r)) (\<lambda>eid.
                   and_then (execute no_faults (delete_statements eid)) (\<lambda>_.
                   insert_statements no_faults r sts)))"
  shows "fst (blk s) = Inr () \<and>
     statements_tbl (txn (snd (blk s))) =
       (case present_nonempty (statements r) of
          None \<Rightarrow> statements_tbl (txn s)
        | Some sts \<Rightarrow> filter (\<lambda>x. stmt_row_entity_id x \<noteq> eid) (statements_tbl (txn s)) @
                     statement_rows eid (statements_seq (txn s)) sts) \<and>
     properties_tbl (txn (snd (blk s))) =
       fold upsert_property (property_mentions r) (properties_tbl (txn s)) \<and>
     entities_tbl (txn (snd (blk s))) = entities_tbl (txn s) \<and>
     aliases_tbl (txn (snd (blk s))) = aliases_tbl (txn s)"
proof (cases "present_nonempty (statements r)")
  case None
  then have "property_mentions r = []"
    by (auto simp: property_mentions_def present_nonempty_def get_or_def
        split: option.splits if_splits)
  then show ?thesis using None by (simp add: blk_def done_with_def)
next
  case (Some sts)
  have g: "getitem_entity_id r = Inr eid"
    using assms(1) by (simp add: getitem_entity_id_def)
  have m: "property_mentions r = mentions sts"
    using Some
    by (auto simp: property_mentions_def present_nonempty_def get_or_def
        split: option.splits if_splits)
  show ?thesis
    by (simp add: blk_def Some g m and_then_def eval_pure_def execute_no_faults
        insert_statements_effect [OF assms(1)] delete_statements_def)
qed

lemma store_entity_try_effect:
  assumes "entity_id r = Some eid"
  shows "fst (store_entity_try no_faults r s) = Inr () \<and>
     db_file (snd (store_entity_try no_faults r s)) = txn (snd (store_entity_try no_faults r s)) \<and>
     entities_tbl (txn (snd (store_entity_try no_faults r s))) =
       filter (\<lambda>x. row_id x \<noteq> eid) (entities_tbl (txn s)) @
         [\<lparr>row_id = eid, row_label = get_or [] (label r),
           row_description = get_or [] (description r), row_type = get_or [] (entity_type r)\<rparr>] \<and>
     aliases_tbl (txn (snd (store_entity_try no_faults r s))) =
       (case present_nonempty (aliases r) of
          None \<Rightarrow> aliases_tbl (txn s)
        | Some as \<Rightarrow> filter (\<lambda>a. alias_entity_id a \<noteq> eid) (aliases_tbl (txn s)) @
                     alias_rows eid (aliases_seq (txn s)) as) \<and>
     statements_tbl (txn (snd (store_entity_try no_faults r s))) =
       (case present_nonempty (statements r) of
          None \<Rightarrow> statements_tbl (txn s)
        | Some sts \<Rightarrow> filter (\<lambda>x. stmt_row_entity_id x \<noteq> eid) (statements_tbl (txn s)) @
                     statement_rows eid (statements_seq (txn s)) sts) \<and>
     properties_tbl (txn (snd (store_entity_try no_faults r s))) =
       fold upsert_property (property_mentions r) (properties_tbl (txn s))"
proof -
  note a = alias_block_effect [OF assms]
  note b = statement_block_effect [OF assms]
  show ?thesis
    unfolding store_entity_try_def
    by (simp add: and_then_fst [where x = "()"] execute_no_faults a b commit_def no_faults_def
        insert_or_replace_entity_def assms get_or_def split: option.split)
qed

lemma sqlite_store_entity_effect:
  assumes "entity_id r = Some eid"
  shows "fst (sqlite_store_entity no_faults r s) = Inr () \<and>
     printed (snd (sqlite_store_entity no_faults r s)) = printed s \<and>
     entities_tbl (db_file (snd (sqlite_store_entity no_faults r s))) =
       filter (\<lambda>x. row_id x \<noteq> eid) (entities_tbl (db_file s)) @
         [\<lparr>row_id = eid, row_label = get_or [] (label r),
           row_description = get_or [] (description r), row_type = get_or [] (entity_type r)\<rparr>] \<and>
     aliases_tbl (db_file (snd (sqlite_store_entity no_faults r s))) =
       (case present_nonempty (aliases r) of
          None \<Rightarrow> aliases_tbl (db_file s)
        | Some as \<Rightarrow> filter (\<lambda>a. alias_entity_id a \<noteq> eid) (aliases_tbl (db_file s)) @
                     alias_rows eid (aliases_seq (db_file s)) as) \<and>
     statements_tbl (db_file (snd (sqlite_store_entity no_faults r s))) =
       (case present_nonempty (statements r) of
          None \<Rightarrow> statements_tbl (db_file s)
        | Some sts \<Rightarrow> filter (\<lambda>x. stmt_row_entity_id x \<noteq> eid) (statements_tbl (db_file s)) @
                     statement_rows eid (statements_seq (db_file s)) sts) \<and>
     properties_tbl (db_file (snd (sqlite_store_entity no_faults r s))) =
       fold upsert_property (property_mentions r) (properties_tbl (db_file s))"
proof -
  let ?s1 = "s\<lparr>clock := Suc (clock s), txn := db_file s, open_connections := Suc (open_connections s)\<rparr>"
  have c: "get_db_connection no_faults s = (Inr (), ?s1)"
    by (rule connect_ok) (simp add: no_faults_def)
  obtain s2 where t: "store_entity_try no_faults r ?s1 = (Inr (), s2)"
    using store_entity_try_effect [OF assms, of ?s1]
    by (cases "store_entity_try no_faults r ?s1") auto
  have s2: "s2 = snd (store_entity_try no_faults r ?s1)"
    by (simp add: t)
  have p: "printed s2 = printed s"
    using store_entity_try_frame [OF t] by simp
  have r: "sqlite_store_entity no_faults r s = (Inr (), close s2)"
    by (simp add: sqlite_store_entity_def c t)
  have d: "db_file s2 = txn s2"
    using store_entity_try_effect [OF assms, of ?s1] by (simp add: s2)
  show ?thesis
    using store_entity_try_effect [OF assms, of ?s1]
    by (simp add: r close_def p d s2 [symmetric] cong: option.case_cong)
qed

lemma sqlite_get_effect:
  "fst (sqlite_get_entity_by_id no_faults eid s) =
     Inr (case select_entity eid (db_file s) of
            None \<Rightarrow> None
          | Some er \<Rightarrow>
              Some \<lparr>view_id = row_id er, view_label = row_label er,
                view_description = row_description er, view_type = row_type er,
                view_aliases = map (\<lambda>a. \<lparr>view_value = fst a, view_language = snd a\<rparr>)
                                 (select_aliases eid (db_file s)),
                view_statements = map statement_of_row (select_statements eid (db_file s))\<rparr>)"
  by (simp add: sqlite_get_entity_by_id_def get_db_connection_def no_faults_def get_entity_try_def
      and_then_def fetch_def done_with_def close_def split: option.split)

lemma find_after_replace:
  "P x \<Longrightarrow> find P (filter (\<lambda>y. \<not> P y) xs @ [x]) = Some x"
  by (induction xs) simp_all

lemma alias_rows_owner:
  "filter (\<lambda>a. alias_entity_id a = eid) (alias_rows eid n as) = alias_rows eid n as"
  by (induction as arbitrary: n) simp_all

lemma alias_rows_view:
  "map (\<lambda>a. \<lparr>view_value = alias_row_value a, view_language = alias_row_language a\<rparr>)
     (alias_rows eid n as) = map alias_view_of as"
  by (induction as arbitrary: n) (simp_all add: alias_view_of_def)

lemma statement_rows_owner:
  "filter (\<lambda>x. stmt_row_entity_id x = eid) (statement_rows eid n sts) = statement_rows eid n sts"
  by (induction sts arbitrary: n) (simp_all split: option.split)

lemma statement_rows_mentioned:
  "x \<in> set (statement_rows eid n sts) \<Longrightarrow> stmt_row_property_id x \<in> fst ` set (mentions sts)"
  by (induction sts arbitrary: n) (auto split: option.splits)

lemma filter_owner_nil:
  "filter (\<lambda>x. f x = eid) (filter (\<lambda>x. f x \<noteq> eid) xs) = []"
  by (induction xs) simp_all

text \<open>After the mentions have been written, the table has exactly one row for each
  mentioned id, with the label of its last mention.\<close>

lemma upsert_filter_same:
  "filter (\<lambda>p. pid = prop_id p) (upsert_property (pid, l) tbl) = [\<lparr>prop_id = pid, prop_label = l\<rparr>]"
proof -
  have "filter (\<lambda>p. pid = prop_id p) (filter (\<lambda>p. prop_id p \<noteq> pid) tbl) = []"
    by (induction tbl) simp_all
  then show ?thesis by (simp add: upsert_property_def)
qed

lemma upsert_filter_other:
  assumes "pid \<noteq> fst m"
  shows "filter (\<lambda>p. pid = prop_id p) (upsert_property m tbl) = filter (\<lambda>p. pid = prop_id p) tbl"
proof -
  have "filter (\<lambda>p. pid = prop_id p) (filter (\<lambda>p. prop_id p \<noteq> fst m) tbl) =
      filter (\<lambda>p. pid = prop_id p) tbl"
    using assms by (induction tbl) auto
  then show ?thesis using assms by (simp add: upsert_property_def)
qed

lemma fold_upsert_row:
  "filter (\<lambda>p. pid = prop_id p) (fold upsert_property ms tbl) =
     (case last_label ms pid of
        None \<Rightarrow> filter (\<lambda>p. pid = prop_id p) tbl
      | Some l \<Rightarrow> [\<lparr>prop_id = pid, prop_label = l\<rparr>])"
proof (induction ms rule: rev_induct)
  case Nil
  show ?case by (simp add: last_label_def)
next
  case (snoc m ms)
  show ?case
  proof (cases "pid = fst m")
    case True
    then have m: "m = (pid, snd m)"
      by (cases m) simp
    have "filter (\<lambda>p. pid = prop_id p) (upsert_property m (fold upsert_property ms tbl)) =
        [\<lparr>prop_id = pid, prop_label = snd m\<rparr>]"
      by (subst m) (rule upsert_filter_same)
    moreover have "last_label (ms @ [m]) pid = Some (snd m)"
      by (subst m) (simp add: last_label_def)
    ultimately show ?thesis by simp
  next
    case False
    then have "last_label (ms @ [m]) pid = last_label ms pid"
      by (cases m) (simp add: last_label_def)
    then show ?thesis using False snoc.IH
      by (simp add: upsert_filter_other)
  qed
qed

lemma last_label_mentioned:
  assumes "pid \<in> fst ` set ms"
  shows "\<exists>l. last_label ms pid = Some l \<and> (pid, l) \<in> set ms"
proof -
  have "pid \<in> fst ` set (rev ms)" using assms by simp
  then obtain l where "map_of (rev ms) pid = Some l"
    by (metis domD dom_map_of_conv_image_fst)
  moreover from this have "(pid, l) \<in> set (rev ms)" by (rule map_of_SomeD)
  ultimately show ?thesis by (simp add: last_label_def)
qed

lemma join_single:
  assumes "\<forall>x \<in> set rows. filter (\<lambda>p. stmt_row_property_id x = prop_id p) props =
      [\<lparr>prop_id = stmt_row_property_id x, prop_label = L (stmt_row_property_id x)\<rparr>]"
  shows "concat (map (\<lambda>s. map (\<lambda>p. (stmt_rowid s, prop_id p, prop_label p, stmt_row_value s,
                                  stmt_row_entity_value_id s))
                         (filter (\<lambda>p. stmt_row_property_id s = prop_id p) props)) rows) =
     map (\<lambda>s. (stmt_rowid s, stmt_row_property_id s, L (stmt_row_property_id s),
                stmt_row_value s, stmt_row_entity_value_id s)) rows"
  using assms by (induction rows) simp_all

lemma rows_fields:
  assumes "\<forall>st \<in> set sts. \<exists>p. stmt_property st = Some p \<and>
      L (get_or [] (property_id p)) = get_or [] (property_label p)"
  shows "map (\<lambda>s. Some (stmt_row_property_id s, L (stmt_row_property_id s), stmt_row_value s,
                        truthy (stmt_row_entity_value_id s))) (statement_rows eid n sts) =
     map statement_fields sts"
  using assms
proof (induction sts arbitrary: n)
  case Nil
  show ?case by simp
next
  case (Cons st sts)
  then obtain p where p: "stmt_property st = Some p"
      "L (get_or [] (property_id p)) = get_or [] (property_label p)"
    by auto
  from Cons have "map (\<lambda>s. Some (stmt_row_property_id s, L (stmt_row_property_id s), stmt_row_value s,
                        truthy (stmt_row_entity_value_id s))) (statement_rows eid (Suc n) sts) =
     map statement_fields sts"
    by simp
  then show ?case using p by (simp add: statement_fields_def)
qed

lemma mention_of_statement:
  "st \<in> set sts \<Longrightarrow> stmt_property st = Some p \<Longrightarrow>
   (get_or [] (property_id p), get_or [] (property_label p)) \<in> set (mentions sts)"
  by (induction sts) (auto split: option.splits)

lemma view_of_joined_row:
  "Some (view_fields (statement_of_row (i, pid, l, v, ev))) = Some (pid, l, v, truthy ev)"
  by (simp add: view_fields_def statement_of_row_def)

lemma stored_statements_view:
  assumes "\<forall>st \<in> set sts. stmt_property st \<noteq> None"
    and "one_label_per_property sts"
  shows "map (\<lambda>row. Some (view_fields (statement_of_row row)))
       (concat (map (\<lambda>s. map (\<lambda>p. (stmt_rowid s, prop_id p, prop_label p, stmt_row_value s,
                                      stmt_row_entity_value_id s))
                             (filter (\<lambda>p. stmt_row_property_id s = prop_id p)
                                (fold upsert_property (mentions sts) props)))
                 (statement_rows eid n sts))) =
     map statement_fields sts"
proof -
  let ?L = "\<lambda>pid. get_or [] (last_label (mentions sts) pid)"
  let ?props = "fold upsert_property (mentions sts) props"
  have one: "\<forall>x \<in> set (statement_rows eid n sts).
      filter (\<lambda>p. stmt_row_property_id x = prop_id p) ?props =
        [\<lparr>prop_id = stmt_row_property_id x, prop_label = ?L (stmt_row_property_id x)\<rparr>]"
  proof
    fix x assume "x \<in> set (statement_rows eid n sts)"
    then have "stmt_row_property_id x \<in> fst ` set (mentions sts)"
      by (rule statement_rows_mentioned)
    then obtain l where "last_label (mentions sts) (stmt_row_property_id x) = Some l"
      using last_label_mentioned by blast
    then show "filter (\<lambda>p. stmt_row_property_id x = prop_id p) ?props =
        [\<lparr>prop_id = stmt_row_property_id x, prop_label = ?L (stmt_row_property_id x)\<rparr>]"
      by (simp add: fold_upsert_row get_or_def)
  qed
  have lab: "\<forall>st \<in> set sts. \<exists>p. stmt_property st = Some p \<and>
      ?L (get_or [] (property_id p)) = get_or [] (property_label p)"
  proof
    fix st assume st: "st \<in> set sts"
    then obtain p where p: "stmt_property st = Some p"
      using assms(1) by auto
    from mention_of_statement [OF st p]
    have m: "(get_or [] (property_id p), get_or [] (property_label p)) \<in> set (mentions sts)" .
    then have "get_or [] (property_id p) \<in> fst ` set (mentions sts)"
      by force
    then obtain l where l: "last_label (mentions sts) (get_or [] (property_id p)) = Some l"
        "(get_or [] (property_id p), l) \<in> set (mentions sts)"
      using last_label_mentioned by blast
    from assms(2) m l(2) have "l = get_or [] (property_label p)"
      unfolding one_label_per_property_def by fastforce
    then have "?L (get_or [] (property_id p)) = get_or [] (property_label p)"
      using l(1) by (simp add: get_or_def)
    then show "\<exists>p. stmt_property st = Some p \<and>
      ?L (get_or [] (property_id p)) = get_or [] (property_label p)"
      using p by blast
  qed
  show ?thesis
    by (simp only: join_single [where L = ?L, OF one])
       (simp add: view_of_joined_row rows_fields [where L = ?L, OF lab] o_def)
qed

lemma present_nonempty_cases:
  "present_nonempty v = None \<Longrightarrow> get_or [] v = []"
  "present_nonempty v = Some xs \<Longrightarrow> get_or [] v = xs \<and> xs \<noteq> []"
  by (auto simp: present_nonempty_def get_or_def split: option.splits if_splits)

lemma filter_none:
  "\<forall>x \<in> set xs. f x \<noteq> eid \<Longrightarrow> filter (\<lambda>x. f x = eid) xs = []"
  by (induction xs) simp_all

lemma sqlite_store_then_get:
  assumes id: "entity_id r = Some eid"
    and props: "\<forall>st \<in> set (get_or [] (statements r)). stmt_property st \<noteq> None"
    and labels: "one_label_per_property (get_or [] (statements r))"
    and al: "present_nonempty (aliases r) \<noteq> None \<or>
        (\<forall>a \<in> set (aliases_tbl (db_file s)). alias_entity_id a \<noteq> eid)"
    and st: "present_nonempty (statements r) \<noteq> None \<or>
        (\<forall>x \<in> set (statements_tbl (db_file s)). stmt_row_entity_id x \<noteq> eid)"
  shows "\<exists>e. fst (sqlite_get_entity_by_id no_faults eid (snd (sqlite_store_entity no_faults r s))) =
         Inr (Some e) \<and>
       view_id e = eid \<and> view_label e = get_or [] (label r) \<and>
       view_description e = get_or [] (description r) \<and>
       view_type e = get_or [] (entity_type r) \<and>
       view_aliases e = map alias_view_of (get_or [] (aliases r)) \<and>
       map (\<lambda>v. Some (view_fields v)) (view_statements e) =
         map statement_fields (get_or [] (statements r))"
proof -
  let ?s' = "snd (sqlite_store_entity no_faults r s)"
  let ?d = "db_file s" and ?D = "db_file ?s'"
  note eff = sqlite_store_entity_effect [OF id, of s]
  let ?row = "\<lparr>row_id = eid, row_label = get_or [] (label r),
           row_description = get_or [] (description r), row_type = get_or [] (entity_type r)\<rparr>"
  have ent: "select_entity eid ?D = Some ?row"
    using find_after_replace [of "\<lambda>e. row_id e = eid" ?row "entities_tbl ?d"] eff
    by (simp add: select_entity_def)
  have ali: "map (\<lambda>a. \<lparr>view_value = fst a, view_language = snd a\<rparr>) (select_aliases eid ?D) =
      map alias_view_of (get_or [] (aliases r))"
  proof (cases "present_nonempty (aliases r)")
    case None
    then have "filter (\<lambda>a. alias_entity_id a = eid) (aliases_tbl ?d) = []"
      using al by (simp add: filter_none)
    then show ?thesis using eff None
      by (simp add: select_aliases_def present_nonempty_cases(1))
  next
    case (Some as)
    then have "aliases_tbl ?D = filter (\<lambda>a. alias_entity_id a \<noteq> eid) (aliases_tbl ?d) @
        alias_rows eid (aliases_seq ?d) as"
      using eff by simp
    then show ?thesis using present_nonempty_cases(2) [OF Some]
      by (simp add: select_aliases_def filter_owner_nil alias_rows_owner alias_rows_view o_def)
  qed
  have sta: "map (\<lambda>v. Some (view_fields v)) (map statement_of_row (select_statements eid ?D)) =
      map statement_fields (get_or [] (statements r))"
  proof (cases "present_nonempty (statements r)")
    case None
    then have "filter (\<lambda>x. stmt_row_entity_id x = eid) (statements_tbl ?d) = []"
      using st by (simp add: filter_none)
    then show ?thesis using eff None
      by (simp add: select_statements_def present_nonempty_cases(1))
  next
    case (Some sts)
    note g = present_nonempty_cases(2) [OF Some]
    have t: "statements_tbl ?D = filter (\<lambda>x. stmt_row_entity_id x \<noteq> eid) (statements_tbl ?d) @
        statement_rows eid (statements_seq ?d) sts"
      using eff Some by simp
    have p: "properties_tbl ?D = fold upsert_property (mentions sts) (properties_tbl ?d)"
      using eff g by (simp add: property_mentions_def)
    have "\<forall>st \<in> set sts. stmt_property st \<noteq> None" "one_label_per_property sts"
      using props labels g by simp_all
    from stored_statements_view [OF this, where eid = eid and n = "statements_seq ?d"
        and props = "properties_tbl ?d"]
    show ?thesis
      by (simp add: select_statements_def t p filter_owner_nil statement_rows_owner g o_def)
  qed
  show ?thesis
    using ali sta by (simp add: sqlite_get_effect ent)
qed

section \<open>Properties are kept once, with the last label\<close>

lemma upsert_property_distinct:
  "distinct (map prop_id tbl) \<Longrightarrow> distinct (map prop_id (upsert_property m tbl))"
  by (auto simp: upsert_property_def distinct_map_filter)

lemma execute_txn:
  "execute fails f s = (res, s') \<Longrightarrow> txn s' = txn s \<or> txn s' = f (txn s)"
  by (auto simp: execute_def split: if_splits)

lemma insert_aliases_properties:
  "insert_aliases fails r as s = (res, s') \<Longrightarrow> properties_tbl (txn s') = properties_tbl (txn s)"
proof (induction as arbitrary: s)
  case Nil
  then show ?case by simp
next
  case (Cons a as)
  show ?case
  proof (cases "getitem_entity_id r")
    case (Inl e)
    then show ?thesis using Cons.prems by simp
  next
    case (Inr eid)
    obtain res1 s1 where ex: "execute fails (insert_alias eid (get_or [] (alias_value a))
        (get_or [] (alias_language a))) s = (res1, s1)"
      by (cases "execute fails (insert_alias eid (get_or [] (alias_value a))
        (get_or [] (alias_language a))) s")
    from execute_txn [OF ex] have p: "properties_tbl (txn s1) = properties_tbl (txn s)"
      by (auto simp: insert_alias_def)
    show ?thesis
    proof (cases res1)
      case (Inl e)
      then show ?thesis using Cons.prems Inr ex p by simp
    next
      case (Inr u)
      then have "insert_aliases fails r as s1 = (res, s')"
        using Cons.prems \<open>getitem_entity_id r = Inr eid\<close> ex by simp
      from Cons.IH [OF this] p show ?thesis by simp
    qed
  qed
qed

lemma insert_statements_one_row:
  "insert_statements fails r sts s = (res, s') \<Longrightarrow> one_row_per_property (txn s) \<Longrightarrow>
   one_row_per_property (txn s')"
proof (induction sts arbitrary: s)
  case Nil
  then show ?case by simp
next
  case (Cons st sts)
  show ?case
  proof (cases "stmt_property st")
    case None
    then show ?thesis using Cons by simp
  next
    case (Some p)
    obtain res1 s1 where ex1: "execute fails (insert_or_replace_property (get_or [] (property_id p))
        (get_or [] (property_label p))) s = (res1, s1)"
      by (cases "execute fails (insert_or_replace_property (get_or [] (property_id p))
        (get_or [] (property_label p))) s")
    have "properties_tbl (insert_or_replace_property (get_or [] (property_id p))
        (get_or [] (property_label p)) (txn s)) =
        upsert_property (get_or [] (property_id p), get_or [] (property_label p))
          (properties_tbl (txn s))"
      by (simp add: insert_or_replace_property_def upsert_property_def)
    then have i1: "one_row_per_property (txn s1)"
      using execute_txn [OF ex1] Cons.prems(2) upsert_property_distinct
      by (auto simp: one_row_per_property_def)
    show ?thesis
    proof (cases res1)
      case (Inl e)
      then show ?thesis using Cons.prems Some ex1 i1 by simp
    next
      case r1: (Inr u)
      show ?thesis
      proof (cases "getitem_entity_id r")
        case (Inl e)
        then show ?thesis using Cons.prems Some ex1 i1 r1 by simp
      next
        case (Inr eid)
        obtain res2 s2 where ex2: "execute fails (insert_statement eid (get_or [] (property_id p))
            (get_or [] (stmt_value st)) (stmt_entity_id st)) s1 = (res2, s2)"
          by (cases "execute fails (insert_statement eid (get_or [] (property_id p))
            (get_or [] (stmt_value st)) (stmt_entity_id st)) s1")
        have i2: "one_row_per_property (txn s2)"
          using execute_txn [OF ex2] i1
          by (auto simp: one_row_per_property_def insert_statement_def)
        show ?thesis
        proof (cases res2)
          case (Inl e)
          then show ?thesis using Cons.prems Some ex1 r1 Inr ex2 i2 by simp
        next
          case r2: (Inr u2)
          then have "insert_statements fails r sts s2 = (res, s')"
            using Cons.prems Some ex1 r1 Inr ex2 by simp
          from Cons.IH [OF this i2] show ?thesis .
        qed
      qed
    qed
  qed
qed


lemma keeps_execute:
  assumes "\<And>d. one_row_per_property d \<Longrightarrow> one_row_per_property (f d)"
  shows "keeps_tables_ok (execute fails f)"
  using assms by (simp add: keeps_tables_ok_def tables_ok_def execute_def)

lemma keeps_commit: "keeps_tables_ok (commit fails)"
  by (simp add: keeps_tables_ok_def tables_ok_def commit_def)

lemma keeps_done_with: "keeps_tables_ok (done_with x)"
  by (simp add: keeps_tables_ok_def done_with_def)

lemma keeps_eval_pure: "keeps_tables_ok (eval_pure v)"
  by (simp add: keeps_tables_ok_def eval_pure_def)

lemma keeps_and_then:
  assumes "keeps_tables_ok m" and "\<And>x. keeps_tables_ok (f x)"
  shows "keeps_tables_ok (and_then m f)"
  unfolding keeps_tables_ok_def
proof (intro allI impI)
  fix s :: sqlite assume ok: "tables_ok s"
  obtain res s1 where m: "m s = (res, s1)" by (cases "m s")
  then have ok1: "tables_ok s1"
    using assms(1) ok by (auto simp: keeps_tables_ok_def)
  show "tables_ok (snd (and_then m f s))"
  proof (cases res)
    case (Inl e)
    then show ?thesis using m ok1 by (simp add: and_then_def)
  next
    case (Inr x)
    then show ?thesis using m ok1 assms(2) [of x]
      by (simp add: and_then_def keeps_tables_ok_def)
  qed
qed

lemma keeps_insert_aliases: "keeps_tables_ok (insert_aliases fails r as)"
  unfolding keeps_tables_ok_def tables_ok_def one_row_per_property_def
proof (intro allI impI)
  fix s :: sqlite
  assume ok: "distinct (map prop_id (properties_tbl (txn s))) \<and>
      distinct (map prop_id (properties_tbl (db_file s)))"
  have p: "insert_aliases fails r as s =
      (fst (insert_aliases fails r as s), snd (insert_aliases fails r as s))"
    by simp
  from insert_aliases_properties [OF p] insert_aliases_frame [OF p] ok
  show "distinct (map prop_id (properties_tbl (txn (snd (insert_aliases fails r as s))))) \<and>
      distinct (map prop_id (properties_tbl (db_file (snd (insert_aliases fails r as s)))))"
    by simp
qed

lemma keeps_insert_statements: "keeps_tables_ok (insert_statements fails r sts)"
  unfolding keeps_tables_ok_def tables_ok_def
proof (intro allI impI)
  fix s :: sqlite
  assume ok: "one_row_per_property (txn s) \<and> one_row_per_property (db_file s)"
  have p: "insert_statements fails r sts s =
      (fst (insert_statements fails r sts s), snd (insert_statements fails r sts s))"
    by simp
  from insert_statements_one_row [OF p] insert_statements_frame [OF p] ok
  show "one_row_per_property (txn (snd (insert_statements fails r sts s))) \<and>
      one_row_per_property (db_file (snd (insert_statements fails r sts s)))"
    by simp
qed

lemma keeps_store_entity_try: "keeps_tables_ok (store_entity_try fails r)"
  unfolding store_entity_try_def
  by (intro keeps_and_then keeps_execute keeps_commit)
     (auto intro!: keeps_and_then keeps_execute keeps_done_with keeps_eval_pure
        keeps_insert_aliases keeps_insert_statements
        simp: one_row_per_property_def insert_or_replace_entity_def delete_aliases_def
          delete_statements_def
        split: option.splits)

lemma sqlite_store_entity_one_row:
  assumes "one_row_per_property (db_file s)"
  shows "one_row_per_property (db_file (snd (sqlite_store_entity fails r s)))"
proof (cases "fails (clock s)")
  case True
  then show ?thesis using assms
    by (simp add: sqlite_store_entity_def get_db_connection_def)
next
  case False
  let ?s1 = "s\<lparr>clock := Suc (clock s), txn := db_file s, open_connections := Suc (open_connections s)\<rparr>"
  have c: "get_db_connection fails s = (Inr (), ?s1)"
    using False by (rule connect_ok)
  have "tables_ok ?s1" using assms by (simp add: tables_ok_def)
  then have ok: "tables_ok (snd (store_entity_try fails r ?s1))"
    using keeps_store_entity_try by (simp add: keeps_tables_ok_def)
  obtain res s2 where t: "store_entity_try fails r ?s1 = (res, s2)"
    by (cases "store_entity_try fails r ?s1")
  then have "one_row_per_property (db_file s2)"
    using ok by (simp add: tables_ok_def)
  then show ?thesis
    by (cases res) (simp_all add: sqlite_store_entity_def c t close_def rollback_def print_def)
qed

lemma sqlite_store_each_one_row:
  "one_row_per_property (db_file s) \<Longrightarrow>
   one_row_per_property (db_file (snd (sqlite_store_each fails rs s)))"
proof (induction rs arbitrary: s)
  case Nil
  then show ?case by simp
next
  case (Cons r rs)
  obtain res s1 where r: "sqlite_store_entity fails r s = (res, s1)"
    by (cases "sqlite_store_entity fails r s")
  then have "one_row_per_property (db_file s1)"
    using sqlite_store_entity_one_row [OF Cons.prems, of fails r] by simp
  from Cons.IH [OF this] show ?case
    using r Cons.prems \<open>one_row_per_property (db_file s1)\<close> by (cases res) simp_all
qed

lemma sqlite_store_entity_without_id:
  assumes "entity_id r = None"
  shows "fst (sqlite_store_entity no_faults r s) = Inr () \<and>
     properties_tbl (db_file (snd (sqlite_store_entity no_faults r s))) = properties_tbl (db_file s)"
  using assms
  by (simp add: sqlite_store_entity_def get_db_connection_def no_faults_def store_entity_try_def
      and_then_def execute_def eval_pure_def getitem_entity_id_def done_with_def commit_def
      close_def rollback_def print_def insert_or_replace_entity_def split: option.splits)

lemma sqlite_store_each_properties:
  "properties_tbl (db_file (snd (sqlite_store_each no_faults rs s))) =
     fold upsert_property (concat (map stored_mentions rs)) (properties_tbl (db_file s))"
proof (induction rs arbitrary: s)
  case Nil
  show ?case by simp
next
  case (Cons r rs)
  have "fst (sqlite_store_entity no_faults r s) = Inr () \<and>
     properties_tbl (db_file (snd (sqlite_store_entity no_faults r s))) =
       fold upsert_property (stored_mentions r) (properties_tbl (db_file s))"
  proof (cases "entity_id r")
    case None
    then show ?thesis
      using sqlite_store_entity_without_id [OF None, of s] by (simp add: stored_mentions_def)
  next
    case (Some eid)
    then show ?thesis
      using sqlite_store_entity_effect [OF Some, of s] by (simp add: stored_mentions_def)
  qed
  then obtain s1 where r: "sqlite_store_entity no_faults r s = (Inr (), s1)"
      and p: "properties_tbl (db_file s1) =
        fold upsert_property (stored_mentions r) (properties_tbl (db_file s))"
    by (cases "sqlite_store_entity no_faults r s") auto
  show ?case using r p Cons.IH [of s1] by simp
qed

lemma find_by_filter:
  "filter P xs = [x] \<Longrightarrow> find P xs = Some x"
  by (induction xs) (auto split: if_splits)

text \<open>
  Claim C8. In the relational backend, after any sequence of \<open>store_entity\<close> calls on a
  table with one row per property id, whatever fails on the way, the properties table still
  has at most one row per property id. When the engine does not fail, the label stored for a
  property id that some stored statement mentioned is the label of the last stored statement
  mentioning it.
\<close>

theorem properties_table_last_label_wins:
  assumes "one_row_per_property (db_file s)"
    and "last_label (concat (map stored_mentions rs)) pid = Some l"
  shows "one_row_per_property (db_file (snd (sqlite_store_each fails rs s))) \<and>
     stored_label (db_file (snd (sqlite_store_each no_faults rs s))) pid = Some l"
proof -
  have "filter (\<lambda>p. pid = prop_id p)
      (properties_tbl (db_file (snd (sqlite_store_each no_faults rs s)))) =
      [\<lparr>prop_id = pid, prop_label = l\<rparr>]"
    by (simp add: sqlite_store_each_properties fold_upsert_row assms(2))
  then have "filter (\<lambda>p. prop_id p = pid)
      (properties_tbl (db_file (snd (sqlite_store_each no_faults rs s)))) =
      [\<lparr>prop_id = pid, prop_label = l\<rparr>]"
    by (simp add: eq_commute)
  then have "stored_label (db_file (snd (sqlite_store_each no_faults rs s))) pid = Some l"
    by (simp add: stored_label_def find_by_filter)
  then show ?thesis
    using sqlite_store_each_one_row [OF assms(1)] by simp
qed

theorem properties_table_last_label_wins_witness:
  "one_row_per_property (db_file new_sqlite) \<and>
   last_label (concat (map stored_mentions [china, nameless, china2])) ''P36'' =
     Some ''capital city'' \<and>
   one_row_per_property
     (db_file (snd (sqlite_store_each (fails_at 3) [china, nameless, china2] new_sqlite))) \<and>
   stored_label (db_file (snd (sqlite_store_each no_faults [china, nameless, china2] new_sqlite)))
     ''P36'' = Some ''capital city''"
proof -
  have h1: "one_row_per_property (db_file new_sqlite)"
    by (simp add: one_row_per_property_def new_sqlite_def empty_database_def)
  have h2: "last_label (concat (map stored_mentions [china, nameless, china2])) ''P36'' =
      Some ''capital city''"
    by (simp add: last_label_def stored_mentions_def property_mentions_def china_def china2_def
        nameless_def get_or_def)
  show ?thesis
    using properties_table_last_label_wins [of new_sqlite "[china, nameless, china2]" "''P36''"
        "''capital city''" "fails_at 3", OF h1 h2] h1 h2
    by simp
qed

section \<open>Storing and reading back\<close>

lemma find_map_update:
  assumes "\<And>d. P d \<Longrightarrow> P (g d)"
  shows "find P (map (\<lambda>d. if P d then g d else d) docs) = map_option g (find P docs)"
  using assms by (induction docs) auto

lemma find_appended:
  "find P xs = None \<Longrightarrow> P x \<Longrightarrow> find P (xs @ [x]) = Some x"
  by (induction xs) (auto split: if_splits)

lemma tinydb_store_then_get:
  assumes "entity_id r = Some eid" and "eid \<noteq> []"
  shows "tinydb_get_entity_by_id eid (tinydb_store_entity r t) =
     Some (case tinydb_get_entity_by_id eid t of None \<Rightarrow> r | Some old \<Rightarrow> dict_update old r)"
proof (cases "table_get (entity_id_is eid) (entities t)")
  case None
  then have "find (entity_id_is eid) (entities t) = None"
    by (simp add: table_get_def)
  then have "find (entity_id_is eid) (entities t @ [r]) = Some r"
    using assms(1) by (simp add: find_appended entity_id_is_def)
  then show ?thesis using assms None
    by (simp add: tinydb_get_entity_by_id_def tinydb_store_entity_def table_insert_def
        table_get_def)
next
  case (Some old)
  have "\<And>d. entity_id_is eid d \<Longrightarrow> entity_id_is eid (dict_update d r)"
    using assms(1) by (simp add: entity_id_is_def entity_id_dict_update)
  from find_map_update [of "entity_id_is eid" "\<lambda>d. dict_update d r", OF this]
  show ?thesis using assms Some
    by (simp add: tinydb_get_entity_by_id_def tinydb_store_entity_def table_update_def
        table_get_def)
qed

lemma dict_update_complete:
  "complete r \<Longrightarrow> entity_id r = Some eid \<Longrightarrow> dict_update old r = r"
  by (auto simp: complete_def dict_update_def override_def)

lemma dict_update_lists:
  "aliases r = Some als \<Longrightarrow> statements r = Some sts \<Longrightarrow>
   aliases (dict_update old r) = Some als \<and> statements (dict_update old r) = Some sts"
  by (simp add: dict_update_def override_def)

lemma create_tables_no_faults:
  "fst (create_tables no_faults s) = Inr () \<and>
   db_file (snd (create_tables no_faults s)) = db_file s \<and>
   printed (snd (create_tables no_faults s)) = printed s"
  by (simp add: create_tables_def and_then_def get_db_connection_def execute_def commit_def
      close_def no_faults_def)

text \<open>
  Claim C1, as amended. Two records share a non-empty \<open>entity_id\<close>; the second carries
  an alias list and a statement list. After \<open>store_entity\<close> of the first and then of the
  second, \<open>get_entity_by_id\<close> returns the aliases and statements of the second record
  and nothing of the first. In the relational backend this holds on a store whose tables
  exist (\<open>create_tables\<close> has run, which \<open>store_entity\<close> itself never does) and
  whose engine does not fail, when both lists of the second record are non-empty, each of
  its statements carries a property and its statements give each property id one label; a
  missing alias value or language, property id or label, or statement value comes back as
  the empty string, and an empty \<open>entity_id\<close> of a statement as no reference. In the
  document backend it holds whenever the second record carries both keys, empty lists
  included, and the lists come back as they are.
\<close>

theorem second_store_replaces_aliases_and_statements:
  assumes "entity_id r1 = Some eid" and "entity_id r2 = Some eid" and "eid \<noteq> []"
    and "aliases r2 = Some als" and "statements r2 = Some sts"
  shows "(als \<noteq> [] \<and> sts \<noteq> [] \<and> (\<forall>st \<in> set sts. stmt_property st \<noteq> None) \<and>
      one_label_per_property sts \<longrightarrow>
      (\<exists>e. fst (sqlite_get_entity_by_id no_faults eid
               (snd (sqlite_store_entity no_faults r2
                 (snd (sqlite_store_entity no_faults r1
                   (snd (create_tables no_faults s))))))) = Inr (Some e) \<and>
           view_aliases e = map alias_view_of als \<and>
           map (\<lambda>v. Some (view_fields v)) (view_statements e) = map statement_fields sts)) \<and>
     (\<exists>d. tinydb_get_entity_by_id eid (tinydb_store_entity r2 (tinydb_store_entity r1 t)) = Some d \<and>
          aliases d = Some als \<and> statements d = Some sts)"
proof (intro conjI impI)
  assume h: "als \<noteq> [] \<and> sts \<noteq> [] \<and> (\<forall>st \<in> set sts. stmt_property st \<noteq> None) \<and>
      one_label_per_property sts"
  let ?s1 = "snd (sqlite_store_entity no_faults r1 (snd (create_tables no_faults s)))"
  have a: "present_nonempty (aliases r2) \<noteq> None" "present_nonempty (statements r2) \<noteq> None"
    using h assms(4,5) by (simp_all add: present_nonempty_def)
  have g: "get_or [] (aliases r2) = als" "get_or [] (statements r2) = sts"
    using assms(4,5) by (simp_all add: get_or_def)
  from sqlite_store_then_get [of r2 eid ?s1] assms(2) h a g
  show "\<exists>e. fst (sqlite_get_entity_by_id no_faults eid
               (snd (sqlite_store_entity no_faults r2 ?s1))) = Inr (Some e) \<and>
           view_aliases e = map alias_view_of als \<and>
           map (\<lambda>v. Some (view_fields v)) (view_statements e) = map statement_fields sts"
    by auto
next
  let ?t1 = "tinydb_store_entity r1 t"
  from tinydb_store_then_get [OF assms(2,3), of ?t1] dict_update_lists [OF assms(4,5)] assms(4,5)
  show "\<exists>d. tinydb_get_entity_by_id eid (tinydb_store_entity r2 ?t1) = Some d \<and>
          aliases d = Some als \<and> statements d = Some sts"
    by (cases "tinydb_get_entity_by_id eid ?t1") simp_all
qed

text \<open>
  Claim C2, as amended. A record has a non-empty \<open>entity_id\<close> and each of its statements
  carries a property. In the relational backend, on a store whose tables exist
  (\<open>create_tables\<close> has run, which \<open>store_entity\<close> itself never does) and whose
  engine does not fail, if the record's statements give each property id one label, and its
  alias list is non-empty or no alias row of that id was stored before, and the same for its
  statement list, then \<open>store_entity\<close> followed by \<open>get_entity_by_id\<close> returns an
  entity with the record's id, label, description and type, the same multiset of aliases
  (value, language) and the same multiset of statements (property id, property label, value,
  referenced entity), where every missing label, description, type, alias value or language,
  property id or label and statement value is read back as the empty string and an empty
  \<open>entity_id\<close> of a statement as no reference. In the document backend, if the record
  carries all its keys or no document of that id was stored before, the document returned
  is the record itself.
\<close>

theorem store_then_get_roundtrip:
  assumes "entity_id r = Some eid" and "eid \<noteq> []"
    and "\<forall>st \<in> set (get_or [] (statements r)). stmt_property st \<noteq> None"
  shows "(one_label_per_property (get_or [] (statements r)) \<and>
      (present_nonempty (aliases r) \<noteq> None \<or>
         (\<forall>a \<in> set (aliases_tbl (db_file s)). alias_entity_id a \<noteq> eid)) \<and>
      (present_nonempty (statements r) \<noteq> None \<or>
         (\<forall>x \<in> set (statements_tbl (db_file s)). stmt_row_entity_id x \<noteq> eid)) \<longrightarrow>
      (\<exists>e. fst (sqlite_get_entity_by_id no_faults eid
               (snd (sqlite_store_entity no_faults r (snd (create_tables no_faults s))))) =
             Inr (Some e) \<and>
           view_id e = eid \<and> view_label e = get_or [] (label r) \<and>
           view_description e = get_or [] (description r) \<and>
           view_type e = get_or [] (entity_type r) \<and>
           mset (view_aliases e) = mset (map alias_view_of (get_or [] (aliases r))) \<and>
           mset (map (\<lambda>v. Some (view_fields v)) (view_statements e)) =
             mset (map statement_fields (get_or [] (statements r))))) \<and>
     (complete r \<or> tinydb_get_entity_by_id eid t = None \<longrightarrow>
        tinydb_get_entity_by_id eid (tinydb_store_entity r t) = Some r)"
proof (intro conjI impI)
  assume h: "one_label_per_property (get_or [] (statements r)) \<and>
      (present_nonempty (aliases r) \<noteq> None \<or>
         (\<forall>a \<in> set (aliases_tbl (db_file s)). alias_entity_id a \<noteq> eid)) \<and>
      (present_nonempty (statements r) \<noteq> None \<or>
         (\<forall>x \<in> set (statements_tbl (db_file s)). stmt_row_entity_id x \<noteq> eid))"
  let ?s0 = "snd (create_tables no_faults s)"
  have "db_file ?s0 = db_file s"
    by (simp add: create_tables_no_faults)
  then have "\<exists>e. fst (sqlite_get_entity_by_id no_faults eid (snd (sqlite_store_entity no_faults r ?s0))) =
         Inr (Some e) \<and>
       view_id e = eid \<and> view_label e = get_or [] (label r) \<and>
       view_description e = get_or [] (description r) \<and>
       view_type e = get_or [] (entity_type r) \<and>
       view_aliases e = map alias_view_of (get_or [] (aliases r)) \<and>
       map (\<lambda>v. Some (view_fields v)) (view_statements e) =
         map statement_fields (get_or [] (statements r))"
    using h by (intro sqlite_store_then_get [OF assms(1) assms(3)]) simp_all
  then obtain e where e: "fst (sqlite_get_entity_by_id no_faults eid (snd (sqlite_store_entity no_faults r ?s0))) =
         Inr (Some e)"
       "view_id e = eid" "view_label e = get_or [] (label r)"
       "view_description e = get_or [] (description r)"
       "view_type e = get_or [] (entity_type r)"
       "view_aliases e = map alias_view_of (get_or [] (aliases r))"
       "map (\<lambda>v. Some (view_fields v)) (view_statements e) =
         map statement_fields (get_or [] (statements r))"
    by blast
  show "\<exists>e. fst (sqlite_get_entity_by_id no_faults eid
               (snd (sqlite_store_entity no_faults r (snd (create_tables no_faults s))))) =
             Inr (Some e) \<and>
           view_id e = eid \<and> view_label e = get_or [] (label r) \<and>
           view_description e = get_or [] (description r) \<and>
           view_type e = get_or [] (entity_type r) \<and>
           mset (view_aliases e) = mset (map alias_view_of (get_or [] (aliases r))) \<and>
           mset (map (\<lambda>v. Some (view_fields v)) (view_statements e)) =
             mset (map statement_fields (get_or [] (statements r)))"
    using e by (intro exI [of _ e]) simp
next
  assume c: "complete r \<or> tinydb_get_entity_by_id eid t = None"
  show "tinydb_get_entity_by_id eid (tinydb_store_entity r t) = Some r"
    using tinydb_store_then_get [OF assms(1,2), of t] c dict_update_complete [OF _ assms(1)]
    by (cases "tinydb_get_entity_by_id eid t") auto
qed


lemmas sqlite_eval =
  sqlite_store_entity_def sqlite_get_entity_by_id_def store_entity_try_def get_entity_try_def
  get_db_connection_def execute_def fetch_def commit_def close_def and_then_def done_with_def
  eval_pure_def present_nonempty_def getitem_entity_id_def get_or_def no_faults_def
  new_sqlite_def empty_database_def insert_or_replace_entity_def delete_aliases_def
  insert_alias_def delete_statements_def insert_or_replace_property_def insert_statement_def
  select_entity_def select_aliases_def select_statements_def statement_of_row_def truthy_def

lemmas batch_eval =
  sqlite_store_entities_def create_tables_def batch_records_def tinydb_store_entities_def

lemmas tinydb_eval =
  tinydb_get_entity_by_id_def tinydb_store_entity_def new_tinydb_def table_get_def
  table_insert_def table_update_def entity_id_is_def dict_update_def override_def

text \<open>
  Claim C1 as stated fails when the second record's lists are empty or absent: the
  relational backend deletes the old rows only inside the guard
  \<open>'aliases' in entity_data and entity_data['aliases']\<close> (and likewise for statements),
  so the aliases and statements of the first record come back; the document backend's
  \<open>update\<close> keeps the statements of the first record when the second has no such key.
\<close>

theorem second_store_keeps_old_lists:
  "fst (sqlite_get_entity_by_id no_faults ''Q148''
          (snd (sqlite_store_entity no_faults china_bare
            (snd (sqlite_store_entity no_faults china
              (snd (create_tables no_faults new_sqlite))))))) =
     Inr (Some \<lparr>view_id = ''Q148'', view_label = ''China'', view_description = [], view_type = [],
        view_aliases = [\<lparr>view_value = ''PRC'', view_language = ''en''\<rparr>],
        view_statements = [\<lparr>sv_id = 1, sv_property_id = ''P36'', sv_property_label = ''capital'',
           sv_value = ''Beijing'', sv_entity_id = Some ''Q956''\<rparr>]\<rparr>) \<and>
   aliases china_bare = Some [] \<and> statements china_bare = None \<and>
   tinydb_get_entity_by_id ''Q148''
       (tinydb_store_entity china_bare (tinydb_store_entity china new_tinydb)) =
     Some \<lparr>entity_id = Some ''Q148'', label = Some ''China'',
        description = Some ''country in East Asia'', entity_type = Some ''country'',
        aliases = Some [], statements = statements china\<rparr>"
  by (simp add: sqlite_eval batch_eval tinydb_eval china_def china_bare_def)

theorem second_store_replaces_aliases_and_statements_witness:
  "entity_id china = Some ''Q148'' \<and> entity_id china2 = Some ''Q148'' \<and> ''Q148'' \<noteq> [] \<and>
   aliases china2 = Some [\<lparr>alias_value = Some ''Zhongguo'', alias_language = Some ''zh''\<rparr>] \<and>
   statements china2 = Some [\<lparr>stmt_property = Some \<lparr>property_id = Some ''P36'', property_label = Some ''capital city''\<rparr>,
        stmt_value = Some ''Peking'', stmt_entity_id = None\<rparr>] \<and>
   one_label_per_property [\<lparr>stmt_property = Some \<lparr>property_id = Some ''P36'', property_label = Some ''capital city''\<rparr>,
        stmt_value = Some ''Peking'', stmt_entity_id = None\<rparr>] \<and>
   (\<exists>e. fst (sqlite_get_entity_by_id no_faults ''Q148''
               (snd (sqlite_store_entity no_faults china2
                 (snd (sqlite_store_entity no_faults china
                   (snd (create_tables no_faults new_sqlite))))))) = Inr (Some e) \<and>
        view_aliases e = [\<lparr>view_value = ''Zhongguo'', view_language = ''zh''\<rparr>] \<and>
        map view_fields (view_statements e) = [(''P36'', ''capital city'', ''Peking'', None)]) \<and>
   (\<exists>d. tinydb_get_entity_by_id ''Q148''
            (tinydb_store_entity china2 (tinydb_store_entity china new_tinydb)) = Some d \<and>
        aliases d = aliases china2 \<and> statements d = statements china2)"
proof -
  let ?als = "[\<lparr>alias_value = Some ''Zhongguo'', alias_language = Some ''zh''\<rparr>]"
  let ?sts = "[\<lparr>stmt_property = Some \<lparr>property_id = Some ''P36'', property_label = Some ''capital city''\<rparr>,
        stmt_value = Some ''Peking'', stmt_entity_id = None\<rparr>]"
  have h1: "entity_id china = Some ''Q148''" by (simp add: china_def)
  have h2: "entity_id china2 = Some ''Q148''" by (simp add: china2_def)
  have h3: "''Q148'' \<noteq> []" by simp
  have h4: "aliases china2 = Some ?als" by (simp add: china2_def)
  have h5: "statements china2 = Some ?sts" by (simp add: china2_def)
  have h6: "?als \<noteq> [] \<and> ?sts \<noteq> [] \<and> (\<forall>st \<in> set ?sts. stmt_property st \<noteq> None) \<and>
      one_label_per_property ?sts"
    by (simp add: one_label_per_property_def)
  from second_store_replaces_aliases_and_statements [OF h1 h2 h3 h4 h5, of new_sqlite new_tinydb] h6
  have "(\<exists>e. fst (sqlite_get_entity_by_id no_faults ''Q148''
               (snd (sqlite_store_entity no_faults china2
                 (snd (sqlite_store_entity no_faults china
                   (snd (create_tables no_faults new_sqlite))))))) = Inr (Some e) \<and>
           view_aliases e = map alias_view_of ?als \<and>
           map (\<lambda>v. Some (view_fields v)) (view_statements e) = map statement_fields ?sts) \<and>
     (\<exists>d. tinydb_get_entity_by_id ''Q148''
            (tinydb_store_entity china2 (tinydb_store_entity china new_tinydb)) = Some d \<and>
          aliases d = Some ?als \<and> statements d = Some ?sts)"
    by blast
  then show ?thesis
    using h1 h2 h4 h5 h6
    by (simp add: alias_view_of_def statement_fields_def get_or_def truthy_def map_eq_Cons_conv)
qed

text \<open>
  Claim C2 as stated fails: a well-formed record whose two statements use the same property
  id with two labels comes back from the relational backend with the second label on both
  statements, because the label is kept once, in the properties table.
\<close>

theorem roundtrip_loses_property_label:
  "fst (sqlite_get_entity_by_id no_faults ''Q1''
          (snd (sqlite_store_entity no_faults two_labels
            (snd (create_tables no_faults new_sqlite))))) =
     Inr (Some \<lparr>view_id = ''Q1'', view_label = ''thing'', view_description = ''d'',
        view_type = ''item'',
        view_aliases = [\<lparr>view_value = ''t'', view_language = ''en''\<rparr>],
        view_statements =
          [\<lparr>sv_id = 1, sv_property_id = ''P1'', sv_property_label = ''b'', sv_value = ''x'',
            sv_entity_id = None\<rparr>,
           \<lparr>sv_id = 2, sv_property_id = ''P1'', sv_property_label = ''b'', sv_value = ''y'',
            sv_entity_id = None\<rparr>]\<rparr>) \<and>
   map statement_fields (get_or [] (statements two_labels)) =
     [Some (''P1'', ''a'', ''x'', None), Some (''P1'', ''b'', ''y'', None)]"
  by (simp add: sqlite_eval batch_eval two_labels_def statement_fields_def)

theorem store_then_get_roundtrip_witness:
  "entity_id china = Some ''Q148'' \<and> ''Q148'' \<noteq> [] \<and>
   None \<notin> set (map stmt_property (get_or [] (statements china))) \<and>
   one_label_per_property (get_or [] (statements china)) \<and>
   present_nonempty (aliases china) \<noteq> None \<and> present_nonempty (statements china) \<noteq> None \<and>
   complete china \<and>
   (\<exists>e. fst (sqlite_get_entity_by_id no_faults ''Q148''
               (snd (sqlite_store_entity no_faults china
                 (snd (create_tables no_faults new_sqlite))))) =
          Inr (Some e) \<and>
        view_label e = ''China'' \<and>
        mset (view_aliases e) = {#\<lparr>view_value = ''PRC'', view_language = ''en''\<rparr>#} \<and>
        mset (map (\<lambda>v. Some (view_fields v)) (view_statements e)) =
          {#Some (''P36'', ''capital'', ''Beijing'', Some ''Q956'')#}) \<and>
   tinydb_get_entity_by_id ''Q148'' (tinydb_store_entity china new_tinydb) = Some china"
proof -
  have h1: "entity_id china = Some ''Q148''" by (simp add: china_def)
  have h2: "''Q148'' \<noteq> []" by simp
  have h3: "\<forall>st \<in> set (get_or [] (statements china)). stmt_property st \<noteq> None"
    by (simp add: china_def get_or_def)
  have h4: "one_label_per_property (get_or [] (statements china)) \<and>
      (present_nonempty (aliases china) \<noteq> None \<or>
         (\<forall>a \<in> set (aliases_tbl (db_file new_sqlite)). alias_entity_id a \<noteq> ''Q148'')) \<and>
      (present_nonempty (statements china) \<noteq> None \<or>
         (\<forall>x \<in> set (statements_tbl (db_file new_sqlite)). stmt_row_entity_id x \<noteq> ''Q148''))"
    by (simp add: china_def get_or_def one_label_per_property_def present_nonempty_def)
  have h5: "complete china \<or> tinydb_get_entity_by_id ''Q148'' new_tinydb = None"
    by (simp add: complete_def china_def)
  have n: "present_nonempty (aliases china) \<noteq> None \<and> present_nonempty (statements china) \<noteq> None \<and>
      complete china"
    by (simp add: china_def present_nonempty_def complete_def)
  from store_then_get_roundtrip [OF h1 h2 h3, of new_sqlite new_tinydb] h4 h5
  have "(\<exists>e. fst (sqlite_get_entity_by_id no_faults ''Q148''
               (snd (sqlite_store_entity no_faults china
                 (snd (create_tables no_faults new_sqlite))))) =
             Inr (Some e) \<and>
           view_id e = ''Q148'' \<and> view_label e = get_or [] (label china) \<and>
           view_description e = get_or [] (description china) \<and>
           view_type e = get_or [] (entity_type china) \<and>
           mset (view_aliases e) = mset (map alias_view_of (get_or [] (aliases china))) \<and>
           mset (map (\<lambda>v. Some (view_fields v)) (view_statements e)) =
             mset (map statement_fields (get_or [] (statements china)))) \<and>
     tinydb_get_entity_by_id ''Q148'' (tinydb_store_entity china new_tinydb) = Some china"
    by blast
  moreover have "get_or [] (label china) = ''China''"
      "map alias_view_of (get_or [] (aliases china)) = [\<lparr>view_value = ''PRC'', view_language = ''en''\<rparr>]"
      "map statement_fields (get_or [] (statements china)) =
         [Some (''P36'', ''capital'', ''Beijing'', Some ''Q956'')]"
    by (simp_all add: china_def get_or_def alias_view_of_def statement_fields_def truthy_def)
  moreover have "None \<notin> set (map stmt_property (get_or [] (statements china)))"
    by (simp add: china_def get_or_def)
  ultimately show ?thesis
    using h1 h2 h4 n by auto
qed

section \<open>Searching\<close>

lemma like_all: "like [CHR ''%''] s"
  by (induction s) simp_all

lemma like_prefix:
  "CHR ''%'' \<notin> set q \<Longrightarrow> CHR ''_'' \<notin> set q \<Longrightarrow> like (q @ [CHR ''%'']) s = ci_prefix q s"
proof (induction q arbitrary: s)
  case Nil
  show ?case by (simp add: like_all)
next
  case (Cons c q)
  then show ?case by (cases s) auto
qed

lemma ci_prefix_nil: "ci_prefix q [] = (q = [])"
  by (cases q) simp_all

lemma like_is_substring:
  assumes "CHR ''%'' \<notin> set q" and "CHR ''_'' \<notin> set q"
  shows "like (like_pattern q) s = ci_substring q s"
proof (induction s)
  case Nil
  show ?case using like_prefix [OF assms, of "[]"]
    by (simp add: like_pattern_def ci_prefix_nil)
next
  case (Cons x xs)
  then show ?case using like_prefix [OF assms, of "x # xs"]
    by (simp add: like_pattern_def)
qed

lemma joined_fst: "x \<in> set (joined d e) \<Longrightarrow> fst x = e"
  by (auto simp: joined_def split: list.splits)

lemma joined_match:
  assumes "CHR ''%'' \<notin> set q" and "CHR ''_'' \<notin> set q"
  shows "(filter (search_where (like_pattern q)) (joined d e) \<noteq> []) = sqlite_match q d e"
proof (cases "filter (\<lambda>a. row_id e = alias_entity_id a) (aliases_tbl d)")
  case Nil
  then have "\<forall>a \<in> set (aliases_tbl d). row_id e \<noteq> alias_entity_id a"
    by (simp add: filter_empty_conv)
  then show ?thesis using Nil
    by (auto simp: joined_def search_where_def sqlite_match_def like_is_substring [OF assms])
next
  case (Cons m ms)
  have mem: "\<And>a. a \<in> set (m # ms) \<longleftrightarrow> a \<in> set (aliases_tbl d) \<and> row_id e = alias_entity_id a"
    using Cons [symmetric] by simp
  have "(filter (search_where (like_pattern q)) (joined d e) \<noteq> []) =
      (\<exists>a \<in> set (m # ms). search_where (like_pattern q) (e, Some a))"
    using Cons by (auto simp: joined_def filter_empty_conv)
  also have "\<dots> = sqlite_match q d e"
  proof
    assume "\<exists>a \<in> set (m # ms). search_where (like_pattern q) (e, Some a)"
    then show "sqlite_match q d e"
      using mem by (auto simp: search_where_def sqlite_match_def like_is_substring [OF assms])
  next
    assume s: "sqlite_match q d e"
    have m: "m \<in> set (m # ms)" by simp
    show "\<exists>a \<in> set (m # ms). search_where (like_pattern q) (e, Some a)"
      using s mem m
      by (auto simp: search_where_def sqlite_match_def like_is_substring [OF assms]
          simp del: set_simps)
  qed
  finally show ?thesis .
qed

lemma map_constant:
  "\<forall>x \<in> set xs. f x = c \<Longrightarrow> map f xs = replicate (length xs) c"
  by (induction xs) simp_all

lemma distinct_rows_replicate:
  assumes "x \<notin> set ys"
  shows "distinct_rows (replicate k x @ ys) = (if k = 0 then distinct_rows ys else x # distinct_rows ys)"
proof (cases k)
  case 0
  then show ?thesis by simp
next
  case (Suc j)
  have "filter (\<lambda>y. y \<noteq> x) (replicate j x @ ys) = ys"
    using assms by (auto simp: filter_id_conv)
  then show ?thesis using Suc by simp
qed

lemma distinct_rows_blocks:
  assumes "distinct (map h es)"
  shows "distinct_rows (concat (map (\<lambda>e. replicate (k e) (h e)) es)) =
     map h (filter (\<lambda>e. 0 < k e) es)"
  using assms
proof (induction es)
  case Nil
  show ?case by simp
next
  case (Cons e es)
  have "set (concat (map (\<lambda>e. replicate (k e) (h e)) es)) \<subseteq> h ` set es"
    by auto
  then have "h e \<notin> set (concat (map (\<lambda>e. replicate (k e) (h e)) es))"
    using Cons.prems by auto
  from distinct_rows_replicate [OF this, of "k e"] Cons show ?case
    by simp
qed

lemma left_join_as_blocks:
  "left_join_aliases d = concat (map (joined d) (index_order (entities_tbl d)))"
proof -
  have "joined d = (\<lambda>e. case filter (\<lambda>a. row_id e = alias_entity_id a) (aliases_tbl d) of
                         [] \<Rightarrow> [(e, None)]
                       | ms \<Rightarrow> map (\<lambda>a. (e, Some a)) ms)"
    by (rule ext) (simp add: joined_def)
  then show ?thesis by (simp add: left_join_aliases_def)
qed

lemma index_order_distinct:
  assumes "distinct (map row_id es)"
  shows "distinct (map row_id (index_order es))"
proof -
  have "mset (map row_id (index_order es)) = mset (map row_id es)"
    by (simp add: index_order_def)
  then show ?thesis using assms by (metis mset_eq_imp_distinct_iff)
qed

lemma select_search_matches:
  assumes "CHR ''%'' \<notin> set q" and "CHR ''_'' \<notin> set q"
    and "distinct (map row_id (entities_tbl d))"
  shows "select_search q n d =
     sql_limit n (map row_hit (filter (sqlite_match q d) (index_order (entities_tbl d))))"
proof -
  let ?W = "search_where (like_pattern q)"
  let ?H = "\<lambda>ea. \<lparr>hit_id = row_id (fst ea), hit_label = row_label (fst ea),
                   hit_description = row_description (fst ea)\<rparr>"
  let ?k = "\<lambda>e. length (filter ?W (joined d e))"
  let ?es = "index_order (entities_tbl d)"
  have block: "\<And>e. map ?H (filter ?W (joined d e)) = replicate (?k e) (row_hit e)"
  proof -
    fix e
    have "\<forall>x \<in> set (filter ?W (joined d e)). ?H x = row_hit e"
      by (auto simp: row_hit_def dest: joined_fst)
    then show "map ?H (filter ?W (joined d e)) = replicate (?k e) (row_hit e)"
      by (rule map_constant)
  qed
  have "map ?H (filter ?W (left_join_aliases d)) =
      concat (map (\<lambda>e. replicate (?k e) (row_hit e)) ?es)"
    by (simp add: left_join_as_blocks filter_concat map_concat o_def block)
  moreover have "distinct (map row_hit ?es)"
  proof -
    have "map hit_id (map row_hit ?es) = map row_id ?es"
      by (simp add: row_hit_def o_def)
    then show ?thesis using index_order_distinct [OF assms(3)] by (metis distinct_map)
  qed
  moreover have "\<And>e. (0 < ?k e) = sqlite_match q d e"
    using joined_match [OF assms(1,2)] by simp
  ultimately show ?thesis
    by (simp add: select_search_def distinct_rows_blocks)
qed

lemma table_search_total:
  assumes "\<forall>d \<in> set ds. cond d = Inr (b d)"
  shows "table_search cond ds = Inr (filter b ds)"
  using assms by (induction ds) simp_all

lemma distinct_take_filter:
  "distinct (map f xs) \<Longrightarrow> distinct (map f (take k (filter P xs)))"
  by (metis distinct_map_filter distinct_take take_map)

text \<open>
  Claim C3, as amended. For a limit \<open>n \<ge> 0\<close>: in the relational backend, for
  \<open>n < 2\<^sup>6\<^sup>3\<close>, on a table with one row per entity id, with an engine that does
  not fail and for a query without the LIKE wildcards \<open>%\<close> and \<open>_\<close>,
  \<open>search_entities\<close> returns the first \<open>n\<close>, in the order of the entity ids, of the
  records \<open>{id, label, description}\<close>, one for each entity of which the query is a
  substring (the case of ASCII letters ignored) of the label, the description or an alias
  value. In the document backend, on a table with one document per id and when
  \<open>re.search\<close> finds the query in the stored labels and descriptions exactly where it is
  such a substring, it returns the first \<open>n\<close>, in the order of the documents, of the
  records of the documents of which the query is such a substring of the label or the
  description; alias values are not searched. In both the result has no two records with the
  same id and at most \<open>n\<close> records.
\<close>

theorem search_entities_matches:
  assumes "0 \<le> n"
  shows "(n < 2 ^ 63 \<and> distinct (map row_id (entities_tbl (db_file s))) \<and>
      CHR ''%'' \<notin> set q \<and> CHR ''_'' \<notin> set q \<longrightarrow>
      (\<exists>hits. fst (sqlite_search_entities no_faults q n s) = Inr hits \<and>
         hits = take (nat n) (map row_hit (filter (sqlite_match q (db_file s))
                                              (index_order (entities_tbl (db_file s))))) \<and>
         distinct (map hit_id hits) \<and> int (length hits) \<le> n)) \<and>
     (one_document_per_id (entities t) \<and> searches_plainly re_search q (entities t) \<longrightarrow>
      (\<exists>hits. tinydb_search_entities re_search q n t = Inr hits \<and>
         hits = take (nat n) (map document_hit (filter (tinydb_match q) (entities t))) \<and>
         distinct (map hit_id hits) \<and> int (length hits) \<le> n))"
proof (intro conjI impI)
  assume h: "n < 2 ^ 63 \<and> distinct (map row_id (entities_tbl (db_file s))) \<and>
      CHR ''%'' \<notin> set q \<and> CHR ''_'' \<notin> set q"
  let ?es = "index_order (entities_tbl (db_file s))"
  let ?hits = "take (nat n) (map row_hit (filter (sqlite_match q (db_file s)) ?es))"
  have b: "bind_integer n = Inr n"
    using assms h by (simp add: bind_integer_def)
  have "fst (sqlite_search_entities no_faults q n s) = Inr (select_search q n (db_file s))"
    by (simp add: sqlite_search_entities_def get_db_connection_def no_faults_def
        search_entities_try_def and_then_def eval_pure_def b fetch_def)
  then have r: "fst (sqlite_search_entities no_faults q n s) = Inr ?hits"
    using h assms by (simp add: select_search_matches sql_limit_def)
  have "map hit_id ?hits = map row_id (take (nat n) (filter (sqlite_match q (db_file s)) ?es))"
    by (simp add: row_hit_def o_def take_map)
  moreover have "distinct (map row_id (take (nat n) (filter (sqlite_match q (db_file s)) ?es)))"
    using h by (intro distinct_take_filter index_order_distinct) blast
  ultimately have d: "distinct (map hit_id ?hits)"
    by (simp only:)
  have l: "int (length ?hits) \<le> n" using assms by simp
  show "\<exists>hits. fst (sqlite_search_entities no_faults q n s) = Inr hits \<and>
         hits = ?hits \<and> distinct (map hit_id hits) \<and> int (length hits) \<le> n"
    using r d l by blast
next
  assume h: "one_document_per_id (entities t) \<and> searches_plainly re_search q (entities t)"
  let ?hits = "take (nat n) (map document_hit (filter (tinydb_match q) (entities t)))"
  have c: "\<forall>d \<in> set (entities t). search_query re_search q d = Inr (tinydb_match q d)"
    using h by (auto simp: searches_plainly_def search_query_def tinydb_match_def)
  have r: "tinydb_search_entities re_search q n t = Inr ?hits"
    using assms
    by (simp add: tinydb_search_entities_def table_search_total [OF c]
        slice_to_def document_hit_def take_map)
  have "map hit_id ?hits = map entity_id (take (nat n) (filter (tinydb_match q) (entities t)))"
    by (simp add: document_hit_def o_def take_map)
  moreover have "distinct (map entity_id (take (nat n) (filter (tinydb_match q) (entities t))))"
    using h by (intro distinct_take_filter) (simp add: one_document_per_id_def)
  ultimately have d: "distinct (map hit_id ?hits)"
    by (simp only:)
  have l: "int (length ?hits) \<le> n" using assms by simp
  show "\<exists>hits. tinydb_search_entities re_search q n t = Inr hits \<and>
         hits = ?hits \<and> distinct (map hit_id hits) \<and> int (length hits) \<le> n"
    using r d l by blast
qed


text \<open>
  Claim C3 as stated fails: the document backend searches only label and description, so an
  entity that matches through an alias alone is not found there (the relational backend
  finds it).
\<close>

theorem tinydb_search_ignores_aliases:
  "tinydb_search_entities ascii_search ''PRC'' 10
       (tinydb_store_entities (Records [china]) new_tinydb) = Inr [] \<and>
   aliases china = Some [\<lparr>alias_value = Some ''PRC'', alias_language = Some ''en''\<rparr>] \<and>
   ci_substring ''PRC'' ''PRC'' \<and>
   fst (sqlite_search_entities no_faults ''PRC'' 10
          (snd (sqlite_store_entities no_faults (Records [china]) new_sqlite))) =
     Inr [\<lparr>hit_id = ''Q148'', hit_label = ''China'', hit_description = ''country in East Asia''\<rparr>]"
  by (simp add: sqlite_eval tinydb_eval batch_eval china_def tinydb_search_entities_def
      search_query_def field_search_def ascii_search_def slice_to_def ascii_lower_def
      sqlite_search_entities_def search_entities_try_def bind_integer_def select_search_def
      sql_limit_def left_join_aliases_def index_order_def search_where_def like_pattern_def)

theorem search_entities_matches_witness:
  "(0::int) \<le> 1 \<and> (1::int) < 2 ^ 63 \<and>
   distinct (map row_id (entities_tbl (db_file
     (snd (sqlite_store_entities no_faults (Records [beijing, china]) new_sqlite))))) \<and>
   CHR ''%'' \<notin> set ''CH'' \<and> CHR ''_'' \<notin> set ''CH'' \<and>
   one_document_per_id (entities (tinydb_store_entities (Records [beijing, china]) new_tinydb)) \<and>
   searches_plainly ascii_search ''CH''
     (entities (tinydb_store_entities (Records [beijing, china]) new_tinydb)) \<and>
   fst (sqlite_search_entities no_faults ''CH'' 1
          (snd (sqlite_store_entities no_faults (Records [beijing, china]) new_sqlite))) =
     Inr [\<lparr>hit_id = ''Q148'', hit_label = ''China'', hit_description = ''country in East Asia''\<rparr>] \<and>
   tinydb_search_entities ascii_search ''CH'' 1
       (tinydb_store_entities (Records [beijing, china]) new_tinydb) =
     Inr [\<lparr>hit_id = Some ''Q956'', hit_label = Some ''Beijing'',
           hit_description = Some ''capital of China''\<rparr>]"
proof -
  let ?s = "snd (sqlite_store_entities no_faults (Records [beijing, china]) new_sqlite)"
  let ?t = "tinydb_store_entities (Records [beijing, china]) new_tinydb"
  have h1: "(0::int) \<le> 1" by simp
  have e: "entities_tbl (db_file ?s) =
      [\<lparr>row_id = ''Q956'', row_label = ''Beijing'', row_description = ''capital of China'',
        row_type = ''city''\<rparr>,
       \<lparr>row_id = ''Q148'', row_label = ''China'', row_description = ''country in East Asia'',
        row_type = ''country''\<rparr>]"
    "aliases_tbl (db_file ?s) =
      [\<lparr>alias_rowid = 1, alias_entity_id = ''Q956'', alias_row_value = ''Peking'',
        alias_row_language = ''en''\<rparr>,
       \<lparr>alias_rowid = 2, alias_entity_id = ''Q148'', alias_row_value = ''PRC'',
        alias_row_language = ''en''\<rparr>]"
    by (simp_all add: sqlite_eval batch_eval china_def beijing_def)
  have t: "entities ?t = [beijing, china]"
    by (simp add: tinydb_eval batch_eval china_def beijing_def)
  have h2: "(1::int) < 2 ^ 63 \<and> distinct (map row_id (entities_tbl (db_file ?s))) \<and>
      CHR ''%'' \<notin> set ''CH'' \<and> CHR ''_'' \<notin> set ''CH''"
    by (simp add: e)
  have h3: "one_document_per_id (entities ?t) \<and> searches_plainly ascii_search ''CH'' (entities ?t)"
    unfolding t
    by (simp add: one_document_per_id_def searches_plainly_def field_search_def field_contains_def
        ascii_search_def china_def beijing_def)
  from search_entities_matches [OF h1, of ?s "''CH''" ?t ascii_search] h2 h3
  have "fst (sqlite_search_entities no_faults ''CH'' 1 ?s) =
      Inr (take (nat 1) (map row_hit (filter (sqlite_match ''CH'' (db_file ?s))
                                              (index_order (entities_tbl (db_file ?s))))))"
    and "tinydb_search_entities ascii_search ''CH'' 1 ?t =
      Inr (take (nat 1) (map document_hit (filter (tinydb_match ''CH'') (entities ?t))))"
    by blast+
  moreover have "take (nat 1) (map row_hit (filter (sqlite_match ''CH'' (db_file ?s))
                                              (index_order (entities_tbl (db_file ?s))))) =
      [\<lparr>hit_id = ''Q148'', hit_label = ''China'', hit_description = ''country in East Asia''\<rparr>]"
    by (simp add: e index_order_def row_hit_def sqlite_match_def ascii_lower_def)
  moreover have "take (nat 1) (map document_hit (filter (tinydb_match ''CH'') (entities ?t))) =
      [\<lparr>hit_id = Some ''Q956'', hit_label = Some ''Beijing'',
        hit_description = Some ''capital of China''\<rparr>]"
    unfolding t
    by (simp add: document_hit_def tinydb_match_def field_contains_def china_def beijing_def
        ascii_lower_def)
  ultimately show ?thesis
    using h1 h2 h3 by simp
qed

end
